theory Spec2Isabelle
  imports Main "HOL-Library.AList" "HOL-Library.Sublist"
begin

section \<open>Platform: results, strings, paths and the file system\<close>

text \<open>
  A JavaScript call either returns a value or throws an \<^verbatim>\<open>Error\<close> with a message.
  Every function of the extension that can throw returns a \<open>result\<close> together with the
  state it had reached, since a \<^verbatim>\<open>catch\<close> block sees the mutations made before the throw.
\<close>

datatype 'a result = Ok 'a | Throw string

text \<open>\<^verbatim>\<open>String(error)\<close> and \<^verbatim>\<open>`${error}`\<close> of an \<^verbatim>\<open>Error\<close> object.\<close>

definition String_error :: "string \<Rightarrow> string" where
  "String_error m = ''Error: '' @ m"

text \<open>\<^verbatim>\<open>String(n)\<close> of a non-negative integer, and of any integer.\<close>

fun String_nat :: "nat \<Rightarrow> string" where
  "String_nat n =
     (if n < 10 then [''0123456789'' ! n]
      else String_nat (n div 10) @ [''0123456789'' ! (n mod 10)])"

declare String_nat.simps [simp del]

definition String_int :: "int \<Rightarrow> string" where
  "String_int i = (if i < 0 then CHR ''-'' # String_nat (nat (- i)) else String_nat (nat i))"

text \<open>\<^verbatim>\<open>s.startsWith(t)\<close> is \<^term>\<open>prefix t s\<close>; \<^verbatim>\<open>s.includes(t)\<close>:\<close>

fun includes_str :: "string \<Rightarrow> string \<Rightarrow> bool" where
  "includes_str [] t = (t = [])"
| "includes_str (c # cs) t = (prefix t (c # cs) \<or> includes_str cs t)"

text \<open>
  \<^verbatim>\<open>xs.slice(k)\<close>: a negative start counts from the end. \<^verbatim>\<open>s.slice(0, -k)\<close> drops the last
  \<open>k\<close> elements.
\<close>

definition slice_from :: "int \<Rightarrow> 'a list \<Rightarrow> 'a list" where
  "slice_from k xs = (if k < 0 then drop (nat (int (length xs) + k)) xs else drop (nat k) xs)"

definition slice_to_end_minus :: "nat \<Rightarrow> 'a list \<Rightarrow> 'a list" where
  "slice_to_end_minus k xs = take (length xs - k) xs"

text \<open>
  Paths are absolute, normalised POSIX paths (\<^verbatim>\<open>path.sep\<close> is \<^verbatim>\<open>/\<close>, so
  \<^verbatim>\<open>p.split(path.sep).join(path.posix.sep)\<close> is \<open>p\<close>). On these \<^verbatim>\<open>path.join(d, n)\<close> puts a
  separator between its arguments, \<^verbatim>\<open>path.basename\<close> is the text after the last separator
  and \<^verbatim>\<open>path.dirname\<close> the text before it.
\<close>

type_synonym path = string
type_synonym bytes = string

definition path_join :: "path \<Rightarrow> string \<Rightarrow> path" where
  "path_join d n = d @ ''/'' @ n"

definition path_basename :: "path \<Rightarrow> string" where
  "path_basename p = rev (takeWhile (\<lambda>c. c \<noteq> CHR ''/'') (rev p))"

definition path_dirname :: "path \<Rightarrow> path" where
  "path_dirname p = rev (drop 1 (dropWhile (\<lambda>c. c \<noteq> CHR ''/'') (rev p)))"

text \<open>
  The library functions whose results the engine only passes on are parameters of the
  model: \<^verbatim>\<open>Date.prototype.toISOString\<close> (timestamps come from \<^verbatim>\<open>Date.now()\<close>, always a valid
  date), the MD5 digest, \<^verbatim>\<open>minimatch(path, pattern, {dot})\<close>, and \<^verbatim>\<open>path.relative\<close>
  (local and POSIX flavour).
\<close>

record platform =
  toISOString :: "int \<Rightarrow> string"
  md5 :: "bytes \<Rightarrow> string"
  minimatch :: "string \<Rightarrow> string \<Rightarrow> bool \<Rightarrow> bool"
  path_relative :: "path \<Rightarrow> path \<Rightarrow> path"
  posix_relative :: "path \<Rightarrow> path \<Rightarrow> path"

text \<open>
  A file system (the local disk, and the server's tree behind the transport) is a finite
  table from paths to nodes, in creation order; a directory lists the entries directly
  below it in that order.
\<close>

datatype node = File bytes | Dir

type_synonym filesystem = "(path \<times> node) list"

definition existsSync :: "filesystem \<Rightarrow> path \<Rightarrow> bool" where
  "existsSync t p = (map_of t p \<noteq> None)"

definition isDirectory :: "filesystem \<Rightarrow> path \<Rightarrow> bool" where
  "isDirectory t p = (map_of t p = Some Dir)"

definition child_name :: "path \<Rightarrow> path \<Rightarrow> string option" where
  "child_name d p =
     (let n = drop (length d + 1) p in
      if take (length d + 1) p = d @ ''/'' \<and> n \<noteq> [] \<and> CHR ''/'' \<notin> set n then Some n else None)"

definition readdirSync :: "filesystem \<Rightarrow> path \<Rightarrow> string list result" where
  "readdirSync t d =
     (case map_of t d of
        Some Dir \<Rightarrow> Ok (List.map_filter (child_name d) (map fst t))
      | Some (File b) \<Rightarrow> Throw (''ENOTDIR: not a directory, scandir '' @ d)
      | None \<Rightarrow> Throw (''ENOENT: no such file or directory, scandir '' @ d))"

definition readFileSync :: "filesystem \<Rightarrow> path \<Rightarrow> bytes result" where
  "readFileSync t p =
     (case map_of t p of
        Some (File b) \<Rightarrow> Ok b
      | Some Dir \<Rightarrow> Throw (''EISDIR: illegal operation on a directory, read '' @ p)
      | None \<Rightarrow> Throw (''ENOENT: no such file or directory, open '' @ p))"

definition writeFileSync :: "filesystem \<Rightarrow> path \<Rightarrow> bytes \<Rightarrow> filesystem result" where
  "writeFileSync t p b =
     (if map_of t p = Some Dir then Throw (''EISDIR: illegal operation on a directory, open '' @ p)
      else if map_of t (path_dirname p) \<noteq> Some Dir
        then Throw (''ENOENT: no such file or directory, open '' @ p)
      else Ok (AList.update p (File b) t))"

definition copyFileSync :: "filesystem \<Rightarrow> path \<Rightarrow> path \<Rightarrow> filesystem result" where
  "copyFileSync t src dst =
     (case readFileSync t src of Throw e \<Rightarrow> Throw e | Ok b \<Rightarrow> writeFileSync t dst b)"

definition unlinkSync :: "filesystem \<Rightarrow> path \<Rightarrow> filesystem result" where
  "unlinkSync t p =
     (case map_of t p of
        Some (File b) \<Rightarrow> Ok (AList.delete p t)
      | Some Dir \<Rightarrow> Throw (''EISDIR: illegal operation on a directory, unlink '' @ p)
      | None \<Rightarrow> Throw (''ENOENT: no such file or directory, unlink '' @ p))"

definition rmdirSync :: "filesystem \<Rightarrow> path \<Rightarrow> filesystem result" where
  "rmdirSync t d =
     (case readdirSync t d of
        Throw e \<Rightarrow> Throw e
      | Ok names \<Rightarrow>
          if names = [] then Ok (AList.delete d t)
          else Throw (''ENOTEMPTY: directory not empty, rmdir '' @ d))"

text \<open>\<^verbatim>\<open>fs.mkdirSync(p, {recursive: true})\<close>: every missing directory on the way is created.\<close>

definition ancestors :: "path \<Rightarrow> path list" where
  "ancestors p =
     filter (\<lambda>q. q \<noteq> []) (map (\<lambda>i. take i p) (filter (\<lambda>i. p ! i = CHR ''/'') [0..<length p])) @ [p]"

fun mkdirs :: "filesystem \<Rightarrow> path list \<Rightarrow> filesystem result" where
  "mkdirs t [] = Ok t"
| "mkdirs t (d # ds) =
     (case map_of t d of
        Some Dir \<Rightarrow> mkdirs t ds
      | Some (File b) \<Rightarrow> Throw (''EEXIST: file already exists, mkdir '' @ d)
      | None \<Rightarrow> mkdirs (t @ [(d, Dir)]) ds)"

definition mkdirSync_recursive :: "filesystem \<Rightarrow> path \<Rightarrow> filesystem result" where
  "mkdirSync_recursive t p = mkdirs t (ancestors p)"

section \<open>Data model\<close>

record ServerProfile =
  name :: string
  host :: string
  port :: nat
  username :: string
  password :: "string option"
  privateKeyPath :: "path option"
  passphrase :: "string option"
  remotePath_p :: path
  exclude :: "string list"

datatype operation = upload | download

record HistoryEntry =
  entry_id :: string
  timestamp :: int
  operation :: operation
  localPath :: path
  remotePath :: path
  profileName :: string
  fileSize :: nat
  hash :: string

record SyncResult =
  success :: bool
  filesProcessed :: nat
  errors :: "string list"

text \<open>
  The \<^verbatim>\<open>filesyncer\<close> section of the workspace configuration, with the defaults already
  applied by the editor (the counts are integers).
\<close>

record settings =
  profiles :: "ServerProfile list"
  activeProfile :: string
  confirmBeforeOverwrite :: bool
  maxHistoryVersions :: int
  historyMaxAgeDays :: int

text \<open>
  The state the engine works on: the configuration and the first workspace folder, the
  local disk, the readings \<^verbatim>\<open>Date.now()\<close> and \<^verbatim>\<open>Math.random().toString(36).substr(2, 9)\<close>
  will return next, the fields of \<^verbatim>\<open>HistoryStorage\<close> (\<open>historyDir\<close>, the index in memory,
  and \<open>persisted\<close>, the content of \<^verbatim>\<open>index.json\<close>), the pending map of \<^verbatim>\<open>HistoryManager\<close>,
  the connections of \<^verbatim>\<open>SFTPManager\<close> (profile name to the client's \<^verbatim>\<open>connected\<close> flag), and
  the server: its tree, whether it accepts a connection, the remote paths on which a
  transport call fails, and the transfer requests (direction, local path, remote path)
  the client has sent so far.
\<close>

record world =
  settings :: settings
  workspaceFolder :: "path option"
  disk :: filesystem
  clock :: "int list"
  entropy :: "string list"
  historyDir :: path
  index :: "HistoryEntry list"
  persisted :: "HistoryEntry list"
  pendingBackups :: "(string \<times> HistoryEntry) list"
  connections :: "(string \<times> bool) list"
  remote :: filesystem
  online :: bool
  failing :: "path list"
  requests :: "(operation \<times> path \<times> path) list"

definition Date_now :: "world \<Rightarrow> int \<times> world" where
  "Date_now w =
     (case clock w of
        [] \<Rightarrow> (0, w)
      | [t] \<Rightarrow> (t, w)
      | t # u # ts \<Rightarrow> (t, w\<lparr>clock := u # ts\<rparr>))"

definition Math_random :: "world \<Rightarrow> string \<times> world" where
  "Math_random w =
     (case entropy w of
        [] \<Rightarrow> ([], w)
      | r # rs \<Rightarrow> (r, w\<lparr>entropy := rs\<rparr>))"

section \<open>ProfileManager\<close>

definition getProfile :: "settings \<Rightarrow> string \<Rightarrow> ServerProfile option" where
  "getProfile cfg n = find (\<lambda>p. name p = n) (profiles cfg)"

definition getActiveProfile :: "settings \<Rightarrow> ServerProfile option" where
  "getActiveProfile cfg =
     (if activeProfile cfg = []
      then (case profiles cfg of [] \<Rightarrow> None | p # ps \<Rightarrow> Some p)
      else getProfile cfg (activeProfile cfg))"

section \<open>HistoryStorage\<close>

text \<open>
  \<^verbatim>\<open>saveIndex\<close> rewrites \<^verbatim>\<open>index.json\<close> inside \<open>historyDir\<close>; a failed write (the directory
  is missing) is logged and swallowed.
\<close>

definition saveIndex :: "world \<Rightarrow> world" where
  "saveIndex w = (if isDirectory (disk w) (historyDir w) then w\<lparr>persisted := index w\<rparr> else w)"

definition getVersionDir :: "platform \<Rightarrow> world \<Rightarrow> HistoryEntry \<Rightarrow> path" where
  "getVersionDir env w entry =
     (let dateStr = slice_to_end_minus 5
            (map (\<lambda>c. if c = CHR '':'' \<or> c = CHR ''.'' then CHR ''-'' else c)
               (toISOString env (timestamp entry)))
      in path_join (historyDir w) (dateStr @ ''_'' @ profileName entry))"

definition generateVersionSuffix :: "world \<Rightarrow> path \<Rightarrow> HistoryEntry \<Rightarrow> string" where
  "generateVersionSuffix w lpath entry =
     (let existingEntries = filter (\<lambda>e. localPath e = lpath \<and> operation e = operation entry
                                       \<and> profileName e = profileName entry) (index w)
      in String_nat (length existingEntries + 1))"

definition backupFile :: "platform \<Rightarrow> path \<Rightarrow> HistoryEntry \<Rightarrow> world \<Rightarrow> (path \<times> HistoryEntry) result \<times> world" where
  "backupFile env lpath entry w =
     (let versionDir = getVersionDir env w entry in
      case (if \<not> existsSync (disk w) versionDir then mkdirSync_recursive (disk w) versionDir
            else Ok (disk w)) of
        Throw e \<Rightarrow> (Throw e, w)
      | Ok t1 \<Rightarrow>
          let w1 = w\<lparr>disk := t1\<rparr>;
              fileName = path_basename lpath;
              versionSuffix = generateVersionSuffix w1 lpath entry;
              backupPath = path_join versionDir (fileName @ ''_v'' @ versionSuffix)
          in if existsSync t1 lpath then
               (case copyFileSync t1 lpath backupPath of
                  Throw e \<Rightarrow> (Throw e, w1)
                | Ok t2 \<Rightarrow>
                    (case readFileSync t2 lpath of
                       Throw e \<Rightarrow> (Throw e, w1\<lparr>disk := t2\<rparr>)
                     | Ok content \<Rightarrow>
                         (Ok (backupPath, entry\<lparr>hash := md5 env content, fileSize := length content\<rparr>),
                          w1\<lparr>disk := t2\<rparr>)))
             else (Ok (backupPath, entry), w1))"

definition isBackupOf :: "string \<Rightarrow> string \<Rightarrow> bool" where
  "isBackupOf fileName f = (prefix fileName f \<and> includes_str f ''_v'')"

definition getBackupPath :: "platform \<Rightarrow> world \<Rightarrow> HistoryEntry \<Rightarrow> path option result" where
  "getBackupPath env w entry =
     (let versionDir = getVersionDir env w entry;
          fileName = path_basename (localPath entry)
      in case readdirSync (disk w) versionDir of
           Throw e \<Rightarrow> Throw e
         | Ok files \<Rightarrow>
             (case find (isBackupOf fileName) files of
                Some found \<Rightarrow> Ok (Some (path_join versionDir found))
              | None \<Rightarrow> Ok None))"

text \<open>
  The \<^verbatim>\<open>try\<close> block of \<^verbatim>\<open>deleteEntry\<close>: whatever it throws is logged and swallowed, and the
  disk keeps the removals made before the throw.
\<close>

definition deleteBackup :: "platform \<Rightarrow> world \<Rightarrow> HistoryEntry \<Rightarrow> filesystem" where
  "deleteBackup env w entry =
     (let versionDir = getVersionDir env w entry;
          fileName = path_basename (localPath entry)
      in case readdirSync (disk w) versionDir of
           Throw e \<Rightarrow> disk w
         | Ok files \<Rightarrow>
             (case (case find (isBackupOf fileName) files of
                      Some found \<Rightarrow> unlinkSync (disk w) (path_join versionDir found)
                    | None \<Rightarrow> Ok (disk w)) of
                Throw e \<Rightarrow> disk w
              | Ok t1 \<Rightarrow>
                  (case readdirSync t1 versionDir of
                     Throw e \<Rightarrow> t1
                   | Ok remainingFiles \<Rightarrow>
                       if remainingFiles = [] then
                         (case rmdirSync t1 versionDir of Throw e \<Rightarrow> t1 | Ok t2 \<Rightarrow> t2)
                       else t1)))"

definition deleteEntry :: "platform \<Rightarrow> HistoryEntry \<Rightarrow> world \<Rightarrow> world" where
  "deleteEntry env entry w =
     (let w1 = w\<lparr>disk := deleteBackup env w entry\<rparr>
      in saveIndex (w1\<lparr>index := filter (\<lambda>e. entry_id e \<noteq> entry_id entry) (index w1)\<rparr>))"

text \<open>The grouping loop of \<^verbatim>\<open>cleanupOldEntries\<close>: a \<^verbatim>\<open>Map\<close> keeps its keys in insertion order.\<close>

definition entriesByFile_add :: "HistoryEntry \<Rightarrow> (path \<times> HistoryEntry list) list \<Rightarrow> (path \<times> HistoryEntry list) list" where
  "entriesByFile_add entry m =
     (let entries = (case map_of m (localPath entry) of None \<Rightarrow> [] | Some es \<Rightarrow> es)
      in AList.update (localPath entry) (entries @ [entry]) m)"

text \<open>
  What one group contributes to \<^verbatim>\<open>entriesToDelete\<close>: the group is sorted newest first (the
  sort is stable), everything from position \<open>maxVersions\<close> on is marked, and so is every
  entry older than \<open>maxAge\<close>.
\<close>

definition markedInGroup :: "int \<Rightarrow> int \<Rightarrow> int \<Rightarrow> HistoryEntry list \<Rightarrow> HistoryEntry list" where
  "markedInGroup maxVersions maxAge now entries =
     (let sorted = sort_key (\<lambda>e. - timestamp e) entries
      in (if int (length sorted) > maxVersions then slice_from maxVersions sorted else [])
         @ filter (\<lambda>entry. now - timestamp entry > maxAge) sorted)"

definition entriesToDelete :: "int \<Rightarrow> int \<Rightarrow> int \<Rightarrow> HistoryEntry list \<Rightarrow> HistoryEntry list" where
  "entriesToDelete maxVersions maxAge now es =
     concat (map (\<lambda>(lpath, entries). markedInGroup maxVersions maxAge now entries)
               (fold entriesByFile_add es []))"

definition cleanupOldEntries :: "platform \<Rightarrow> world \<Rightarrow> world" where
  "cleanupOldEntries env w =
     (let maxVersions = maxHistoryVersions (settings w);
          maxAgeDays = historyMaxAgeDays (settings w);
          (now, w1) = Date_now w;
          maxAge = maxAgeDays * 24 * 60 * 60 * 1000
      in fold (deleteEntry env) (entriesToDelete maxVersions maxAge now (index w1)) w1)"

definition addEntry :: "platform \<Rightarrow> HistoryEntry \<Rightarrow> world \<Rightarrow> world" where
  "addEntry env entry w = cleanupOldEntries env (saveIndex (w\<lparr>index := index w @ [entry]\<rparr>))"

section \<open>HistoryManager\<close>

definition operation_name :: "operation \<Rightarrow> string" where
  "operation_name opn = (case opn of upload \<Rightarrow> ''upload'' | download \<Rightarrow> ''download'')"

definition getBackupKey :: "path \<Rightarrow> path \<Rightarrow> operation \<Rightarrow> string" where
  "getBackupKey lpath rpath opn = lpath @ ''|'' @ rpath @ ''|'' @ operation_name opn"

definition generateId :: "world \<Rightarrow> string \<times> world" where
  "generateId w =
     (let (t, w1) = Date_now w; (r, w2) = Math_random w1 in (String_int t @ ''-'' @ r, w2))"

text \<open>
  \<^verbatim>\<open>recordBeforeUpload\<close> and \<^verbatim>\<open>recordBeforeDownload\<close> differ in the operation they write
  into the entry and the key; likewise the two \<^verbatim>\<open>recordAfter\<close> functions. Nothing that
  \<^verbatim>\<open>recordAfter\<close> calls throws.
\<close>

definition recordBefore :: "platform \<Rightarrow> operation \<Rightarrow> path \<Rightarrow> path \<Rightarrow> world \<Rightarrow> unit result \<times> world" where
  "recordBefore env opn lpath rpath w =
     (case getActiveProfile (settings w) of
        None \<Rightarrow> (Ok (), w)
      | Some profile \<Rightarrow>
          let (i, w1) = generateId w;
              (t, w2) = Date_now w1;
              entry = \<lparr>entry_id = i, timestamp = t, operation = opn, localPath = lpath,
                       remotePath = rpath, profileName = name profile, fileSize = 0, hash = []\<rparr>
          in if existsSync (disk w2) lpath then
               (case backupFile env lpath entry w2 of
                  (Throw e, w3) \<Rightarrow> (Throw e, w3)
                | (Ok (backupPath, entry'), w3) \<Rightarrow>
                    (Ok (), w3\<lparr>pendingBackups :=
                               AList.update (getBackupKey lpath rpath opn) entry' (pendingBackups w3)\<rparr>))
             else (Ok (), w2))"

definition recordAfter :: "platform \<Rightarrow> operation \<Rightarrow> path \<Rightarrow> path \<Rightarrow> world \<Rightarrow> world" where
  "recordAfter env opn lpath rpath w =
     (let key = getBackupKey lpath rpath opn in
      case map_of (pendingBackups w) key of
        None \<Rightarrow> w
      | Some entry \<Rightarrow>
          (let w1 = addEntry env entry w
           in w1\<lparr>pendingBackups := AList.delete key (pendingBackups w1)\<rparr>))"

definition recordBeforeUpload :: "platform \<Rightarrow> path \<Rightarrow> path \<Rightarrow> world \<Rightarrow> unit result \<times> world" where
  "recordBeforeUpload env = recordBefore env upload"

definition recordAfterUpload :: "platform \<Rightarrow> path \<Rightarrow> path \<Rightarrow> world \<Rightarrow> world" where
  "recordAfterUpload env = recordAfter env upload"

definition recordBeforeDownload :: "platform \<Rightarrow> path \<Rightarrow> path \<Rightarrow> world \<Rightarrow> unit result \<times> world" where
  "recordBeforeDownload env = recordBefore env download"

definition recordAfterDownload :: "platform \<Rightarrow> path \<Rightarrow> path \<Rightarrow> world \<Rightarrow> world" where
  "recordAfterDownload env = recordAfter env download"

definition restoreFromHistory :: "platform \<Rightarrow> HistoryEntry \<Rightarrow> world \<Rightarrow> unit result \<times> world" where
  "restoreFromHistory env entry w =
     (case getBackupPath env w entry of
        Throw e \<Rightarrow> (Throw e, w)
      | Ok None \<Rightarrow> (Throw ''Backup file not found'', w)
      | Ok (Some backupPath) \<Rightarrow>
          if \<not> existsSync (disk w) backupPath then (Throw ''Backup file not found'', w)
          else (case copyFileSync (disk w) backupPath (localPath entry) of
                  Throw e \<Rightarrow> (Throw e, w)
                | Ok t1 \<Rightarrow> (Ok (), w\<lparr>disk := t1\<rparr>)))"

section \<open>SFTPClient and SFTPManager\<close>

record FileInfo =
  type_f :: char
  name_f :: string
  path_f :: path

definition isConnected :: "world \<Rightarrow> string \<Rightarrow> bool" where
  "isConnected w c = (map_of (connections w) c = Some True)"

text \<open>
  \<^verbatim>\<open>SFTPClient.connect\<close>: the private key is read only when no password is set; the
  server then accepts the connection or not. Every failure is rethrown as
  \<^verbatim>\<open>Failed to connect\<close>.
\<close>

definition truthy :: "string option \<Rightarrow> bool" where
  "truthy s = (case s of None \<Rightarrow> False | Some v \<Rightarrow> v \<noteq> [])"

definition client_connect :: "ServerProfile \<Rightarrow> world \<Rightarrow> unit result" where
  "client_connect profile w =
     (case (if truthy (password profile) then Ok ()
            else if truthy (privateKeyPath profile) then
              (case readFileSync (disk w) (the (privateKeyPath profile)) of
                 Throw e \<Rightarrow> Throw (''Failed to read private key: '' @ String_error e)
               | Ok b \<Rightarrow> Ok ())
            else Ok ()) of
        Throw e \<Rightarrow> Throw (''Failed to connect: '' @ String_error e)
      | Ok a \<Rightarrow>
          if online w then Ok ()
          else Throw (''Failed to connect: '' @ String_error ''connect ECONNREFUSED''))"

definition connect :: "string \<Rightarrow> world \<Rightarrow> unit result \<times> world" where
  "connect pname w =
     (case getProfile (settings w) pname of
        None \<Rightarrow> (Throw (''Profile '' @ [CHR 0x22] @ pname @ [CHR 0x22] @ '' not found''), w)
      | Some profile \<Rightarrow>
          if isConnected w pname then (Ok (), w)
          else (case client_connect profile w of
                  Ok a \<Rightarrow> (Ok (), w\<lparr>connections := AList.update pname True (connections w)\<rparr>)
                | Throw e \<Rightarrow> (Throw e, w\<lparr>connections := AList.update pname False (connections w)\<rparr>)))"

text \<open>
  \<^verbatim>\<open>SFTPManager.ensureConnected()\<close>; the client it returns is the one registered under the
  active profile's name, and the client's methods below take that name.
\<close>

definition ensureConnected :: "world \<Rightarrow> unit result \<times> world" where
  "ensureConnected w =
     (case getActiveProfile (settings w) of
        None \<Rightarrow> (Throw ''No active profile. Please configure a server profile first.'', w)
      | Some p \<Rightarrow>
          if name p = [] then (Throw ''No active profile. Please configure a server profile first.'', w)
          else if isConnected w (name p) then (Ok (), w)
          else connect (name p) w)"

definition client_exists :: "string \<Rightarrow> path \<Rightarrow> world \<Rightarrow> bool result" where
  "client_exists c rpath w =
     (if \<not> isConnected w c then Throw ''Not connected to SFTP server''
      else Ok (existsSync (remote w) rpath \<and> rpath \<notin> set (failing w)))"

text \<open>
  The transfers of the SFTP library: a call on a remote path listed in \<open>failing\<close> fails,
  whatever the trees hold.
\<close>

definition fastPut :: "path \<Rightarrow> path \<Rightarrow> world \<Rightarrow> unit result \<times> world" where
  "fastPut lpath rpath w =
     (let w0 = w\<lparr>requests := requests w @ [(upload, lpath, rpath)]\<rparr> in
      if rpath \<in> set (failing w0) then (Throw (''fastPut: connection lost, '' @ rpath), w0)
      else case readFileSync (disk w0) lpath of
             Throw e \<Rightarrow> (Throw e, w0)
           | Ok b \<Rightarrow>
               (case writeFileSync (remote w0) rpath b of
                  Throw e \<Rightarrow> (Throw e, w0)
                | Ok t \<Rightarrow> (Ok (), w0\<lparr>remote := t\<rparr>)))"

definition fastGet :: "path \<Rightarrow> path \<Rightarrow> world \<Rightarrow> unit result \<times> world" where
  "fastGet rpath lpath w =
     (let w0 = w\<lparr>requests := requests w @ [(download, lpath, rpath)]\<rparr> in
      if rpath \<in> set (failing w0) then (Throw (''fastGet: connection lost, '' @ rpath), w0)
      else case readFileSync (remote w0) rpath of
             Throw e \<Rightarrow> (Throw e, w0)
           | Ok b \<Rightarrow>
               (case writeFileSync (disk w0) lpath b of
                  Throw e \<Rightarrow> (Throw e, w0)
                | Ok t \<Rightarrow> (Ok (), w0\<lparr>disk := t\<rparr>)))"

definition putFile :: "string \<Rightarrow> path \<Rightarrow> path \<Rightarrow> world \<Rightarrow> unit result \<times> world" where
  "putFile c lpath rpath w =
     (if \<not> isConnected w c then (Throw ''Not connected to SFTP server'', w)
      else
        let remoteDir = path_dirname rpath;
            w1 = (case (if remoteDir \<in> set (failing w) then Throw ''mkdir: connection lost''
                        else mkdirSync_recursive (remote w) remoteDir) of
                    Throw e \<Rightarrow> w
                  | Ok t \<Rightarrow> w\<lparr>remote := t\<rparr>)
        in case fastPut lpath rpath w1 of
             (Throw e, w2) \<Rightarrow> (Throw (''Failed to upload file '' @ lpath @ '': '' @ String_error e), w2)
           | (Ok a, w2) \<Rightarrow> (Ok (), w2))"

definition getFile :: "string \<Rightarrow> path \<Rightarrow> path \<Rightarrow> world \<Rightarrow> unit result \<times> world" where
  "getFile c rpath lpath w =
     (if \<not> isConnected w c then (Throw ''Not connected to SFTP server'', w)
      else
        let dir = path_dirname lpath in
        case (if \<not> existsSync (disk w) dir then mkdirSync_recursive (disk w) dir else Ok (disk w)) of
          Throw e \<Rightarrow> (Throw (''Failed to download file '' @ rpath @ '': '' @ String_error e), w)
        | Ok t \<Rightarrow>
            (case fastGet rpath lpath (w\<lparr>disk := t\<rparr>) of
               (Throw e, w2) \<Rightarrow> (Throw (''Failed to download file '' @ rpath @ '': '' @ String_error e), w2)
             | (Ok a, w2) \<Rightarrow> (Ok (), w2)))"

definition listDir :: "string \<Rightarrow> path \<Rightarrow> world \<Rightarrow> FileInfo list result" where
  "listDir c rpath w =
     (if \<not> isConnected w c then Throw ''Not connected to SFTP server''
      else case (if rpath \<in> set (failing w) then Throw ''list: connection lost''
                 else readdirSync (remote w) rpath) of
             Throw e \<Rightarrow> Throw (''Failed to list directory '' @ rpath @ '': '' @ String_error e)
           | Ok names \<Rightarrow>
               Ok (map (\<lambda>n. \<lparr>type_f = (if isDirectory (remote w) (path_join rpath n) then CHR ''d'' else CHR ''-''),
                              name_f = n, path_f = path_join rpath n\<rparr>) names))"

section \<open>SyncManager\<close>

text \<open>
  The user, as the engine meets them: the button chosen in an overwrite prompt
  (\<open>None\<close> when the prompt is dismissed), and the first iteration of a bulk operation
  at which the cancellation token reads as requested (\<open>None\<close>: never).
\<close>

record user =
  choice :: "string option"
  cancelledFrom :: "nat option"

definition isCancellationRequested :: "user \<Rightarrow> nat \<Rightarrow> bool" where
  "isCancellationRequested u i = (case cancelledFrom u of None \<Rightarrow> False | Some n \<Rightarrow> n \<le> i)"

text \<open>The two recursive walks; a throw inside a walk aborts it.\<close>

fun collect :: "path list result list \<Rightarrow> path list result" where
  "collect [] = Ok []"
| "collect (Throw e # rs) = Throw e"
| "collect (Ok xs # rs) = (case collect rs of Throw e \<Rightarrow> Throw e | Ok ys \<Rightarrow> Ok (xs @ ys))"

definition longest :: "filesystem \<Rightarrow> nat" where
  "longest t = Max (insert 0 (set (map (\<lambda>(p, n). length p) t)))"

function getAllFiles :: "filesystem \<Rightarrow> path \<Rightarrow> path list result" where
  "getAllFiles t dirPath =
     (case readdirSync t dirPath of
        Throw e \<Rightarrow> Throw e
      | Ok entries \<Rightarrow>
          collect (map (\<lambda>entryName.
                     if isDirectory t (path_join dirPath entryName)
                     then getAllFiles t (path_join dirPath entryName)
                     else Ok [path_join dirPath entryName]) entries))"
  by pat_completeness auto
termination
proof (relation "measure (\<lambda>(t, d). Suc (longest t) - length d)")
  show "wf (measure (\<lambda>(t, d). Suc (longest t) - length d))" by simp
next
  fix t :: filesystem and dirPath :: path and entries :: "string list" and x :: string
  assume dir: "isDirectory t (path_join dirPath x)"
  then have "(path_join dirPath x, Dir) \<in> set t"
    by (simp add: isDirectory_def map_of_SomeD)
  then have "length (path_join dirPath x) \<in> insert 0 (set (map (\<lambda>(p, n). length p) t))"
    by force
  then have "length (path_join dirPath x) \<le> longest t"
    unfolding longest_def by (intro Max_ge) auto
  moreover have "length dirPath < length (path_join dirPath x)"
    by (simp add: path_join_def)
  ultimately show "((t, path_join dirPath x), (t, dirPath)) \<in> measure (\<lambda>(t, d). Suc (longest t) - length d)"
    by simp
qed

declare getAllFiles.simps [simp del]

function getAllRemoteFiles :: "string \<Rightarrow> world \<Rightarrow> path \<Rightarrow> path list result" where
  "getAllRemoteFiles c w rpath =
     (case listDir c rpath w of
        Throw e \<Rightarrow> Throw e
      | Ok fileInfos \<Rightarrow>
          collect (map (\<lambda>fileInfo.
                     if name_f fileInfo = ''.'' \<or> name_f fileInfo = ''..'' then Ok []
                     else if type_f fileInfo = CHR ''d''
                       then getAllRemoteFiles c w (path_join rpath (name_f fileInfo))
                       else Ok [path_join rpath (name_f fileInfo)]) fileInfos))"
  by pat_completeness auto
termination
proof (relation "measure (\<lambda>(c, w, d). Suc (longest (remote w)) - length d)")
  show "wf (measure (\<lambda>(c, w, d). Suc (longest (remote w)) - length d))" by simp
next
  fix c :: string and w :: world and rpath :: path and fileInfos :: "FileInfo list" and x :: FileInfo
  assume ls: "listDir c rpath w = Ok fileInfos" and x: "x \<in> set fileInfos"
    and ty: "type_f x = CHR ''d''"
  from ls x ty have "isDirectory (remote w) (path_join rpath (name_f x))"
    by (auto simp: listDir_def split: if_splits result.splits)
  then have "(path_join rpath (name_f x), Dir) \<in> set (remote w)"
    by (simp add: isDirectory_def map_of_SomeD)
  then have "length (path_join rpath (name_f x)) \<in> insert 0 (set (map (\<lambda>(p, n). length p) (remote w)))"
    by force
  then have "length (path_join rpath (name_f x)) \<le> longest (remote w)"
    unfolding longest_def by (intro Max_ge) auto
  moreover have "length rpath < length (path_join rpath (name_f x))"
    by (simp add: path_join_def)
  ultimately show "((c, w, path_join rpath (name_f x)), (c, w, rpath))
      \<in> measure (\<lambda>(c, w, d). Suc (longest (remote w)) - length d)"
    by simp
qed

declare getAllRemoteFiles.simps [simp del]

definition getRemotePath :: "platform \<Rightarrow> world \<Rightarrow> path \<Rightarrow> path \<Rightarrow> path" where
  "getRemotePath env w lpath remoteBase =
     (case workspaceFolder w of
        None \<Rightarrow> path_join remoteBase (path_basename lpath)
      | Some root \<Rightarrow> path_join remoteBase (path_relative env root lpath))"

definition getLocalPath :: "platform \<Rightarrow> world \<Rightarrow> path \<Rightarrow> path \<Rightarrow> path result" where
  "getLocalPath env w rpath remoteBase =
     (case workspaceFolder w of
        None \<Rightarrow> Throw ''No workspace folder open''
      | Some root \<Rightarrow> Ok (path_join root (posix_relative env remoteBase rpath)))"

fun shouldExclude :: "platform \<Rightarrow> string \<Rightarrow> string list \<Rightarrow> bool" where
  "shouldExclude env filePath [] = False"
| "shouldExclude env filePath (pattern # rest) =
     (if minimatch env filePath pattern False \<or> minimatch env filePath pattern True then True
      else shouldExclude env filePath rest)"

definition newResult :: SyncResult where
  "newResult = \<lparr>success = True, filesProcessed = 0, errors = []\<rparr>"

text \<open>The outer \<^verbatim>\<open>catch\<close> block of every operation.\<close>

definition failed :: "SyncResult \<Rightarrow> string \<Rightarrow> SyncResult" where
  "failed r e = r\<lparr>success := False, errors := errors r @ [String_error e]\<rparr>"

definition uploadFile :: "platform \<Rightarrow> user \<Rightarrow> path \<Rightarrow> path option \<Rightarrow> world \<Rightarrow> SyncResult \<times> world" where
  "uploadFile env u lpath rpath w =
     (case getActiveProfile (settings w) of
        None \<Rightarrow> (failed newResult ''No active server profile'', w)
      | Some active \<Rightarrow>
          let targetRemotePath = (if truthy rpath then the rpath
                                  else getRemotePath env w lpath (remotePath_p active))
          in (case ensureConnected w of
               (Throw e, w1) \<Rightarrow> (failed newResult e, w1)
             | (Ok a, w1) \<Rightarrow>
                 (case (if confirmBeforeOverwrite (settings w1)
                        then client_exists (name active) targetRemotePath w1 else Ok False) of
                    Throw e \<Rightarrow> (failed newResult e, w1)
                  | Ok ask \<Rightarrow>
                      if ask \<and> choice u \<noteq> Some ''Overwrite'' then (newResult, w1)
                      else (case recordBeforeUpload env lpath targetRemotePath w1 of
                              (Throw e, w2) \<Rightarrow> (failed newResult e, w2)
                            | (Ok b, w2) \<Rightarrow>
                                (case putFile (name active) lpath targetRemotePath w2 of
                                   (Throw e, w3) \<Rightarrow> (failed newResult e, w3)
                                 | (Ok c, w3) \<Rightarrow>
                                     (newResult\<lparr>filesProcessed := 1\<rparr>,
                                      recordAfterUpload env lpath targetRemotePath w3))))))"

definition downloadFile :: "platform \<Rightarrow> user \<Rightarrow> path \<Rightarrow> path option \<Rightarrow> world \<Rightarrow> SyncResult \<times> world" where
  "downloadFile env u rpath lpath w =
     (case getActiveProfile (settings w) of
        None \<Rightarrow> (failed newResult ''No active server profile'', w)
      | Some active \<Rightarrow>
          (case (if truthy lpath then Ok (the lpath)
                 else getLocalPath env w rpath (remotePath_p active)) of
             Throw e \<Rightarrow> (failed newResult e, w)
           | Ok targetLocalPath \<Rightarrow>
               (case ensureConnected w of
                  (Throw e, w1) \<Rightarrow> (failed newResult e, w1)
                | (Ok a, w1) \<Rightarrow>
                    if confirmBeforeOverwrite (settings w1) \<and> existsSync (disk w1) targetLocalPath
                       \<and> choice u \<noteq> Some ''Overwrite''
                    then (newResult, w1)
                    else (case recordBeforeDownload env targetLocalPath rpath w1 of
                            (Throw e, w2) \<Rightarrow> (failed newResult e, w2)
                          | (Ok b, w2) \<Rightarrow>
                              (case getFile (name active) rpath targetLocalPath w2 of
                                 (Throw e, w3) \<Rightarrow> (failed newResult e, w3)
                               | (Ok c, w3) \<Rightarrow>
                                   (newResult\<lparr>filesProcessed := 1\<rparr>,
                                    recordAfterDownload env targetLocalPath rpath w3))))))"

text \<open>
  The body of the inner \<^verbatim>\<open>try\<close> of the three bulk loops, up to the increment of
  \<^verbatim>\<open>filesProcessed\<close>: the upload loops (\<^verbatim>\<open>uploadFolder\<close>, \<^verbatim>\<open>syncAll\<close>) resolve the remote path
  of the file under \<open>target\<close>, the download loop the local path.
\<close>

definition uploadOne :: "platform \<Rightarrow> string \<Rightarrow> path \<Rightarrow> path \<Rightarrow> path \<Rightarrow> world \<Rightarrow> unit result \<times> world" where
  "uploadOne env c root target file w =
     (let relativePath = path_relative env root file;
          remoteFilePath = path_join target relativePath
      in case recordBeforeUpload env file remoteFilePath w of
           (Throw e, w1) \<Rightarrow> (Throw e, w1)
         | (Ok a, w1) \<Rightarrow>
             (case putFile c file remoteFilePath w1 of
                (Throw e, w2) \<Rightarrow> (Throw e, w2)
              | (Ok b, w2) \<Rightarrow> (Ok (), recordAfterUpload env file remoteFilePath w2)))"

definition downloadOne :: "platform \<Rightarrow> string \<Rightarrow> path \<Rightarrow> path \<Rightarrow> path \<Rightarrow> world \<Rightarrow> unit result \<times> world" where
  "downloadOne env c root target file w =
     (let relativePath = posix_relative env root file;
          localFilePath = path_join target relativePath
      in case recordBeforeDownload env localFilePath file w of
           (Throw e, w1) \<Rightarrow> (Throw e, w1)
         | (Ok a, w1) \<Rightarrow>
             (case getFile c file localFilePath w1 of
                (Throw e, w2) \<Rightarrow> (Throw e, w2)
              | (Ok b, w2) \<Rightarrow> (Ok (), recordAfterDownload env localFilePath file w2)))"

text \<open>
  The \<^verbatim>\<open>for\<close> loop inside \<^verbatim>\<open>withProgress\<close>, the same in the three bulk operations but for
  the body and the cancellation message: the token is polled before each file, a throw
  of the body is caught and recorded, and the loop goes on with the next file.
\<close>

fun transferLoop :: "(path \<Rightarrow> world \<Rightarrow> unit result \<times> world) \<Rightarrow> string \<Rightarrow> user \<Rightarrow> nat \<Rightarrow> path list
    \<Rightarrow> SyncResult \<Rightarrow> world \<Rightarrow> unit result \<times> SyncResult \<times> world" where
  "transferLoop body cancelMsg u i [] r w = (Ok (), r, w)"
| "transferLoop body cancelMsg u i (file # files) r w =
     (if isCancellationRequested u i then (Throw cancelMsg, r, w)
      else (case body file w of
              (Ok a, w1) \<Rightarrow>
                transferLoop body cancelMsg u (Suc i) files (r\<lparr>filesProcessed := filesProcessed r + 1\<rparr>) w1
            | (Throw e, w1) \<Rightarrow>
                transferLoop body cancelMsg u (Suc i) files
                  (r\<lparr>errors := errors r @ [file @ '': '' @ String_error e]\<rparr>) w1))"

definition finish :: "unit result \<times> SyncResult \<times> world \<Rightarrow> SyncResult \<times> world" where
  "finish x = (case x of (Throw e, r, w) \<Rightarrow> (failed r e, w) | (Ok a, r, w) \<Rightarrow> (r, w))"

definition uploadFolder :: "platform \<Rightarrow> user \<Rightarrow> path \<Rightarrow> path option \<Rightarrow> world \<Rightarrow> SyncResult \<times> world" where
  "uploadFolder env u localFolderPath rpath w =
     (case getActiveProfile (settings w) of
        None \<Rightarrow> (failed newResult ''No active server profile'', w)
      | Some active \<Rightarrow>
          let targetRemotePath = (if truthy rpath then the rpath
                                  else getRemotePath env w localFolderPath (remotePath_p active))
          in (case ensureConnected w of
               (Throw e, w1) \<Rightarrow> (failed newResult e, w1)
             | (Ok a, w1) \<Rightarrow>
                 (case getAllFiles (disk w1) localFolderPath of
                    Throw e \<Rightarrow> (failed newResult e, w1)
                  | Ok files \<Rightarrow>
                      finish (transferLoop
                        (uploadOne env (name active) localFolderPath targetRemotePath)
                        ''Upload cancelled'' u 0 files newResult w1))))"

definition downloadFolder :: "platform \<Rightarrow> user \<Rightarrow> path \<Rightarrow> path option \<Rightarrow> world \<Rightarrow> SyncResult \<times> world" where
  "downloadFolder env u remoteFolderPath lpath w =
     (case getActiveProfile (settings w) of
        None \<Rightarrow> (failed newResult ''No active server profile'', w)
      | Some active \<Rightarrow>
          (case (if truthy lpath then Ok (the lpath)
                 else getLocalPath env w remoteFolderPath (remotePath_p active)) of
             Throw e \<Rightarrow> (failed newResult e, w)
           | Ok targetLocalPath \<Rightarrow>
               (case ensureConnected w of
                  (Throw e, w1) \<Rightarrow> (failed newResult e, w1)
                | (Ok a, w1) \<Rightarrow>
                    (case getAllRemoteFiles (name active) w1 remoteFolderPath of
                       Throw e \<Rightarrow> (failed newResult e, w1)
                     | Ok files \<Rightarrow>
                         finish (transferLoop
                           (downloadOne env (name active) remoteFolderPath targetLocalPath)
                           ''Download cancelled'' u 0 files newResult w1)))))"

definition syncAll :: "platform \<Rightarrow> user \<Rightarrow> world \<Rightarrow> SyncResult \<times> world" where
  "syncAll env u w =
     (case workspaceFolder w of
        None \<Rightarrow> (failed newResult ''No workspace folder open'', w)
      | Some root \<Rightarrow>
          (case getActiveProfile (settings w) of
             None \<Rightarrow> (failed newResult ''No active server profile'', w)
           | Some active \<Rightarrow>
               (case ensureConnected w of
                  (Throw e, w1) \<Rightarrow> (failed newResult e, w1)
                | (Ok a, w1) \<Rightarrow>
                    (case getAllFiles (disk w1) root of
                       Throw e \<Rightarrow> (failed newResult e, w1)
                     | Ok localFiles \<Rightarrow>
                         let filesToUpload = filter (\<lambda>file.
                               \<not> shouldExclude env (path_relative env root file) (exclude active))
                               localFiles
                         in finish (transferLoop
                              (uploadOne env (name active) root (remotePath_p active))
                              ''Sync cancelled'' u 0 filesToUpload newResult w1)))))"

section \<open>Observations on a run\<close>

text \<open>
  What the statements below say about a run of a bulk operation: the outcome of the loop
  body at each file in turn, the error strings those outcomes make, that the cancellation
  token does not read as requested during the first \<open>n\<close> iterations, the result of an
  operation that failed as a whole before it started, and that a run from \<open>w0\<close> to \<open>w\<close>
  has sent no transfer request for the local file \<open>f\<close> and put no snapshot of it among
  the pending entries or in the index.
\<close>

fun bodyOutcomes :: "(path \<Rightarrow> world \<Rightarrow> unit result \<times> world) \<Rightarrow> path list \<Rightarrow> world \<Rightarrow> unit result list" where
  "bodyOutcomes body [] w = []"
| "bodyOutcomes body (file # files) w = fst (body file w) # bodyOutcomes body files (snd (body file w))"

fun errorsOf :: "path list \<Rightarrow> unit result list \<Rightarrow> string list" where
  "errorsOf (f # fs) (Ok a # os) = errorsOf fs os"
| "errorsOf (f # fs) (Throw e # os) = (f @ '': '' @ String_error e) # errorsOf fs os"
| "errorsOf fs os = []"

definition notCancelledBefore :: "user \<Rightarrow> nat \<Rightarrow> bool" where
  "notCancelledBefore u n = (case cancelledFrom u of None \<Rightarrow> True | Some k \<Rightarrow> n \<le> k)"

definition hardFailure :: "string \<Rightarrow> SyncResult" where
  "hardFailure m = \<lparr>success = False, filesProcessed = 0, errors = [''Error: '' @ m]\<rparr>"

definition untouched :: "path \<Rightarrow> world \<Rightarrow> world \<Rightarrow> bool" where
  "untouched f w0 w =
     ((\<forall>q \<in> set (requests w). fst (snd q) = f \<longrightarrow> q \<in> set (requests w0))
      \<and> (\<forall>x \<in> snd ` set (pendingBackups w). localPath x = f \<longrightarrow> x \<in> snd ` set (pendingBackups w0))
      \<and> (\<forall>x \<in> set (index w). localPath x = f \<longrightarrow> x \<in> set (index w0)))"

section \<open>Concrete inputs\<close>

text \<open>
  A small platform and workspace on which the definitions above evaluate: ISO dates are
  the timestamp followed by five characters, a glob is either a literal or \<^verbatim>\<open>*suffix\<close>,
  and a relative path drops the root and the separator.
\<close>

definition demo_platform :: platform where
  "demo_platform =
     \<lparr>toISOString = (\<lambda>t. String_int t @ ''.000Z''),
      md5 = (\<lambda>b. b),
      minimatch = (\<lambda>f p dot. case p of [] \<Rightarrow> f = []
                     | c # cs \<Rightarrow> if c = CHR ''*'' then suffix cs f \<and> (dot \<or> take 1 f \<noteq> ''.'') else f = p),
      path_relative = (\<lambda>from to. drop (length from + 1) to),
      posix_relative = (\<lambda>from to. drop (length from + 1) to)\<rparr>"

definition demo_profile :: ServerProfile where
  "demo_profile =
     \<lparr>name = ''prod'', host = ''example.org'', port = 22, username = ''deploy'', password = None,
      privateKeyPath = None, passphrase = None, remotePath_p = ''/srv'', exclude = [''*.log'']\<rparr>"

definition demo_settings :: settings where
  "demo_settings =
     \<lparr>profiles = [demo_profile], activeProfile = ''prod'', confirmBeforeOverwrite = True,
      maxHistoryVersions = 2, historyMaxAgeDays = 30\<rparr>"

definition demo_world :: world where
  "demo_world =
     \<lparr>settings = demo_settings, workspaceFolder = Some ''/ws'',
      disk = [(''/ws'', Dir), (''/ws/a.txt'', File ''hello''), (''/ws/b.log'', File ''log''),
              (''/ws/.vscode'', Dir), (''/ws/.vscode/filesyncer'', Dir),
              (''/ws/.vscode/filesyncer/history'', Dir)],
      clock = [1000], entropy = [],
      historyDir = ''/ws/.vscode/filesyncer/history'',
      index = [], persisted = [], pendingBackups = [], connections = [],
      remote = [(''/srv'', Dir)], online = True, failing = [], requests = []\<rparr>"

definition demo_entry :: "string \<Rightarrow> int \<Rightarrow> HistoryEntry" where
  "demo_entry i t =
     \<lparr>entry_id = i, timestamp = t, operation = upload, localPath = ''/ws/a.txt'',
      remotePath = ''/srv/a.txt'', profileName = ''prod'', fileSize = 5, hash = ''hello''\<rparr>"

text \<open>A pending upload snapshot of \<^verbatim>\<open>/ws/a.txt\<close> that has not been committed yet.\<close>

definition pending_world :: world where
  "pending_world = demo_world\<lparr>pendingBackups := [(''/ws/a.txt|/srv/a.txt|upload'', demo_entry ''a'' 100)]\<rparr>"

text \<open>
  A download of \<^verbatim>\<open>/srv/a.txt\<close> onto the existing \<^verbatim>\<open>/ws/a.txt\<close> was snapshotted, the transfer
  failed (\<^verbatim>\<open>recordAfterDownload\<close> was never called), and the local file has been removed
  since.
\<close>

definition stale_world :: world where
  "stale_world =
     (let w1 = snd (recordBeforeDownload demo_platform ''/ws/a.txt'' ''/srv/a.txt'' demo_world)
      in w1\<lparr>disk := AList.delete ''/ws/a.txt'' (disk w1)\<rparr>)"

text \<open>One committed upload of \<^verbatim>\<open>/ws/a.txt\<close>, after which the file was edited.\<close>

definition restorable_world :: world where
  "restorable_world =
     (let w1 = snd (recordBeforeUpload demo_platform ''/ws/a.txt'' ''/srv/a.txt'' demo_world);
          w2 = recordAfterUpload demo_platform ''/ws/a.txt'' ''/srv/a.txt'' w1
      in w2\<lparr>disk := AList.update ''/ws/a.txt'' (File ''changed'') (disk w2)\<rparr>)"

definition restorable_entry :: HistoryEntry where
  "restorable_entry =
     \<lparr>entry_id = ''1000-'', timestamp = 1000, operation = upload, localPath = ''/ws/a.txt'',
      remotePath = ''/srv/a.txt'', profileName = ''prod'', fileSize = 5, hash = ''hello''\<rparr>"

text \<open>A workspace that keeps one version per file, and one snapshot-and-commit round on it.\<close>

definition one_version_world :: world where
  "one_version_world =
     demo_world\<lparr>settings := demo_settings\<lparr>maxHistoryVersions := 1\<rparr>,
                clock := [1000, 1000, 1000, 2000, 2000, 2000, 3000]\<rparr>"

definition snapshot_and_commit :: "world \<Rightarrow> world" where
  "snapshot_and_commit w =
     recordAfterUpload demo_platform ''/ws/a.txt'' ''/srv/a.txt''
       (snd (recordBeforeUpload demo_platform ''/ws/a.txt'' ''/srv/a.txt'' w))"

text \<open>Users who confirm and who decline an overwrite; neither cancels a bulk operation.\<close>

definition overwriting_user :: user where
  "overwriting_user = \<lparr>choice = Some ''Overwrite'', cancelledFrom = None\<rparr>"

definition declining_user :: user where
  "declining_user = \<lparr>choice = Some ''Cancel'', cancelledFrom = None\<rparr>"

text \<open>
  The workspace with \<^verbatim>\<open>a.txt\<close> already on the server; the same with no workspace folder
  open; a workspace with neither a profile nor a folder; and a workspace of three files
  where the transfer of the second fails, or of all three.
\<close>

definition served_world :: world where
  "served_world = demo_world\<lparr>remote := [(''/srv'', Dir), (''/srv/a.txt'', File ''remote'')]\<rparr>"

definition no_workspace_world :: world where
  "no_workspace_world = served_world\<lparr>workspaceFolder := None\<rparr>"

definition unconfigured_world :: world where
  "unconfigured_world =
     demo_world\<lparr>settings := demo_settings\<lparr>profiles := [], activeProfile := []\<rparr>,
                workspaceFolder := None\<rparr>"

definition batch_world :: world where
  "batch_world =
     demo_world\<lparr>disk := [(''/ws'', Dir), (''/ws/a.txt'', File ''hello''), (''/ws/b.log'', File ''log''),
                         (''/ws/c.txt'', File ''third''), (''/ws/.vscode'', Dir),
                         (''/ws/.vscode/filesyncer'', Dir), (''/ws/.vscode/filesyncer/history'', Dir)],
                failing := [''/srv/b.log'']\<rparr>"

definition all_failing_world :: world where
  "all_failing_world = batch_world\<lparr>failing := [''/srv/a.txt'', ''/srv/b.log'', ''/srv/c.txt'']\<rparr>"

text \<open>
  A server tree of three files where the transfer of the second fails, and the
  three-file workspace with the failure at its last file.
\<close>

definition remote_batch_world :: world where
  "remote_batch_world =
     demo_world\<lparr>remote := [(''/srv'', Dir), (''/srv/a.txt'', File ''ra''), (''/srv/b.log'', File ''rb''),
                           (''/srv/c.txt'', File ''rc'')],
                failing := [''/srv/b.log'']\<rparr>"


text \<open>The workspace with both its files on the server as well.\<close>

definition served_logs_world :: world where
  "served_logs_world =
     demo_world\<lparr>remote := [(''/srv'', Dir), (''/srv/a.txt'', File ''ra''), (''/srv/b.log'', File ''rb'')]\<rparr>"

text \<open>
  The same through \<open>downloadFile\<close>: a download onto the existing \<^verbatim>\<open>/ws/a.txt\<close> fails in
  transit, the local file is removed, and the connection recovers.
\<close>

definition after_failed_download :: world where
  "after_failed_download =
     (let w1 = snd (downloadFile demo_platform overwriting_user ''/srv/a.txt'' (Some ''/ws/a.txt'')
                      (served_world\<lparr>failing := [''/srv/a.txt'']\<rparr>))
      in w1\<lparr>disk := AList.delete ''/ws/a.txt'' (disk w1), failing := []\<rparr>)"

section \<open>Retention pruning\<close>

lemma index_Date_now [simp]: "index (snd (Date_now w)) = index w"
  by (simp add: Date_now_def split: list.splits)

lemma settings_Date_now [simp]: "settings (snd (Date_now w)) = settings w"
  by (simp add: Date_now_def split: list.splits)

lemma fst_Date_now_cong: "clock w = clock w' \<Longrightarrow> fst (Date_now w) = fst (Date_now w')"
  by (simp add: Date_now_def split: list.splits)

lemma index_saveIndex [simp]: "index (saveIndex w) = index w"
  by (simp add: saveIndex_def)

lemma clock_saveIndex [simp]: "clock (saveIndex w) = clock w"
  by (simp add: saveIndex_def)

lemma settings_saveIndex [simp]: "settings (saveIndex w) = settings w"
  by (simp add: saveIndex_def)

lemma index_deleteEntry:
  "index (deleteEntry env e w) = filter (\<lambda>x. entry_id x \<noteq> entry_id e) (index w)"
  by (simp add: deleteEntry_def Let_def)

text \<open>Deleting a list of entries one after the other removes every record that carries one of their ids.\<close>

lemma index_fold_deleteEntry:
  "index (fold (deleteEntry env) ds w) = filter (\<lambda>x. entry_id x \<notin> entry_id ` set ds) (index w)"
proof (induction ds arbitrary: w)
  case Nil
  then show ?case by simp
next
  case (Cons d ds)
  have "index (fold (deleteEntry env) (d # ds) w)
      = filter (\<lambda>x. entry_id x \<notin> entry_id ` set ds) (filter (\<lambda>x. entry_id x \<noteq> entry_id d) (index w))"
    by (simp add: Cons.IH index_deleteEntry)
  also have "\<dots> = filter (\<lambda>x. entry_id x \<notin> entry_id ` set (d # ds)) (index w)"
    by (auto intro: filter_cong)
  finally show ?case .
qed

lemma index_cleanupOldEntries:
  "index (cleanupOldEntries env w) =
     filter (\<lambda>x. entry_id x \<notin> entry_id ` set (entriesToDelete (maxHistoryVersions (settings w))
                (historyMaxAgeDays (settings w) * 24 * 60 * 60 * 1000) (fst (Date_now w)) (index w)))
       (index w)"
  by (simp add: cleanupOldEntries_def Let_def case_prod_beta index_fold_deleteEntry)

lemma index_addEntry:
  "index (addEntry env e w) =
     filter (\<lambda>x. entry_id x \<notin> entry_id ` set (entriesToDelete (maxHistoryVersions (settings w))
                (historyMaxAgeDays (settings w) * 24 * 60 * 60 * 1000) (fst (Date_now w)) (index w @ [e])))
       (index w @ [e])"
proof -
  have "fst (Date_now (saveIndex (w\<lparr>index := index w @ [e]\<rparr>))) = fst (Date_now w)"
    by (rule fst_Date_now_cong) simp
  then show ?thesis
    by (simp add: addEntry_def index_cleanupOldEntries)
qed

text \<open>The grouping loop puts under each local path the index entries of that path, in index order.\<close>

lemma map_of_entriesByFile_add:
  "map_of (entriesByFile_add e m) p =
     (if localPath e = p then Some ((case map_of m p of None \<Rightarrow> [] | Some xs \<Rightarrow> xs) @ [e])
      else map_of m p)"
  by (simp add: entriesByFile_add_def update_conv')

lemma map_of_entriesByFile:
  "map_of (fold entriesByFile_add es m) p =
     (if filter (\<lambda>e. localPath e = p) es = [] then map_of m p
      else Some ((case map_of m p of None \<Rightarrow> [] | Some xs \<Rightarrow> xs) @ filter (\<lambda>e. localPath e = p) es))"
proof (induction es arbitrary: m)
  case Nil
  then show ?case by simp
next
  case (Cons e es)
  have "map_of (fold entriesByFile_add (e # es) m) p
      = map_of (fold entriesByFile_add es (entriesByFile_add e m)) p"
    by simp
  also have "\<dots> = (if filter (\<lambda>e. localPath e = p) es = [] then map_of (entriesByFile_add e m) p
      else Some ((case map_of (entriesByFile_add e m) p of None \<Rightarrow> [] | Some xs \<Rightarrow> xs)
                 @ filter (\<lambda>e. localPath e = p) es))"
    by (rule Cons.IH)
  also have "\<dots> = (if filter (\<lambda>e. localPath e = p) (e # es) = [] then map_of m p
      else Some ((case map_of m p of None \<Rightarrow> [] | Some xs \<Rightarrow> xs) @ filter (\<lambda>e. localPath e = p) (e # es)))"
    by (simp add: map_of_entriesByFile_add split: option.splits)
  finally show ?case .
qed

lemma group_in_entriesByFile:
  assumes "x \<in> set es"
  shows "(localPath x, filter (\<lambda>e. localPath e = localPath x) es) \<in> set (fold entriesByFile_add es [])"
proof -
  from assms have "filter (\<lambda>e. localPath e = localPath x) es \<noteq> []"
    by (auto simp: filter_empty_conv)
  then have "map_of (fold entriesByFile_add es []) (localPath x)
      = Some (filter (\<lambda>e. localPath e = localPath x) es)"
    by (simp add: map_of_entriesByFile)
  then show ?thesis by (rule map_of_SomeD)
qed

lemma marked_subset:
  assumes "x \<in> set es"
  shows "set (markedInGroup k a n (filter (\<lambda>e. localPath e = localPath x) es))
         \<subseteq> set (entriesToDelete k a n es)"
proof
  fix y
  assume y: "y \<in> set (markedInGroup k a n (filter (\<lambda>e. localPath e = localPath x) es))"
  let ?grp = "(localPath x, filter (\<lambda>e. localPath e = localPath x) es)"
  have "?grp \<in> set (fold entriesByFile_add es [])"
    by (rule group_in_entriesByFile [OF assms])
  then have "y \<in> (\<Union>grp\<in>set (fold entriesByFile_add es []). set (markedInGroup k a n (snd grp)))"
    using y by (intro UN_I [of ?grp]) simp_all
  then show "y \<in> set (entriesToDelete k a n es)"
    by (simp add: entriesToDelete_def case_prod_beta)
qed

lemma old_is_marked:
  assumes "x \<in> set es" "n - timestamp x > a"
  shows "x \<in> set (entriesToDelete k a n es)"
proof -
  have "x \<in> set (markedInGroup k a n (filter (\<lambda>e. localPath e = localPath x) es))"
    unfolding markedInGroup_def Let_def
    apply (simp only: set_append Un_iff set_filter set_sort mem_Collect_eq)
    using assms apply blast
    done
  then show ?thesis using marked_subset [OF assms(1), of k a n] by blast
qed

text \<open>
  Of a group whose marked entries are all deleted, at most \<open>maxVersions\<close> survive: the
  survivors lie among the first \<open>maxVersions\<close> of the sorted group.
\<close>

lemma kept_in_group_le:
  assumes k: "0 \<le> k" and D: "entry_id ` set (markedInGroup k a n g) \<subseteq> D"
  shows "length (filter (\<lambda>x. entry_id x \<notin> D) g) \<le> nat k"
proof -
  define s where "s = sort_key (\<lambda>e. - timestamp e) g"
  have len: "length (filter (\<lambda>x. entry_id x \<notin> D) g) = length (filter (\<lambda>x. entry_id x \<notin> D) s)"
    by (simp add: s_def filter_sort)
  show ?thesis
  proof (cases "int (length s) > k")
    case False
    have "length (filter (\<lambda>x. entry_id x \<notin> D) s) \<le> length s" by simp
    with False len show ?thesis by linarith
  next
    case True
    with k have "set (drop (nat k) s) \<subseteq> set (markedInGroup k a n g)"
      by (simp add: markedInGroup_def s_def [symmetric] slice_from_def)
    with D have "\<forall>x \<in> set (drop (nat k) s). entry_id x \<in> D" by blast
    then have tl: "filter (\<lambda>x. entry_id x \<notin> D) (drop (nat k) s) = []"
      by (simp add: filter_empty_conv)
    have "filter (\<lambda>x. entry_id x \<notin> D) s
        = filter (\<lambda>x. entry_id x \<notin> D) (take (nat k) s) @ filter (\<lambda>x. entry_id x \<notin> D) (drop (nat k) s)"
      by (metis append_take_drop_id filter_append)
    with tl len have "length (filter (\<lambda>x. entry_id x \<notin> D) g)
        = length (filter (\<lambda>x. entry_id x \<notin> D) (take (nat k) s))"
      by simp
    moreover have "length (filter (\<lambda>x. entry_id x \<notin> D) (take (nat k) s)) \<le> length (take (nat k) s)"
      by (rule length_filter_le)
    moreover have "length (take (nat k) s) \<le> nat k" by simp
    ultimately show ?thesis by linarith
  qed
qed

lemma retained_per_path_le:
  assumes k: "0 \<le> k"
  shows "length (filter (\<lambda>x. localPath x = P)
           (filter (\<lambda>x. entry_id x \<notin> entry_id ` set (entriesToDelete k a n es)) es)) \<le> nat k"
proof (cases "\<exists>x \<in> set es. localPath x = P")
  case False
  then have "filter (\<lambda>x. localPath x = P)
           (filter (\<lambda>x. entry_id x \<notin> entry_id ` set (entriesToDelete k a n es)) es) = []"
    by (auto simp: filter_empty_conv)
  then show ?thesis by simp
next
  case True
  then obtain x where x: "x \<in> set es" "localPath x = P" by blast
  let ?D = "entry_id ` set (entriesToDelete k a n es)"
  have "entry_id ` set (markedInGroup k a n (filter (\<lambda>e. localPath e = P) es)) \<subseteq> ?D"
    using marked_subset [OF x(1), of k a n] x(2) by blast
  from kept_in_group_le [OF k this]
  have "length (filter (\<lambda>x. entry_id x \<notin> ?D) (filter (\<lambda>e. localPath e = P) es)) \<le> nat k" .
  moreover have "filter (\<lambda>x. localPath x = P) (filter (\<lambda>x. entry_id x \<notin> ?D) es)
      = filter (\<lambda>x. entry_id x \<notin> ?D) (filter (\<lambda>e. localPath e = P) es)"
    by (auto intro: filter_cong)
  ultimately show ?thesis by simp
qed

text \<open>
  C1 (retention invariant). With a non-negative \<open>maxHistoryVersions\<close>, the index left by
  \<open>addEntry\<close> (the push followed by its pruning pass) holds, for every local path \<open>P\<close>, at
  most \<open>maxHistoryVersions\<close> entries of \<open>P\<close>, and no entry older than \<open>historyMaxAgeDays\<close>
  days at the clock reading the pruning pass took; it is the index with the new entry,
  less every record that carries the id of an entry marked for deletion.
\<close>

theorem retention_after_addEntry:
  assumes "0 \<le> maxHistoryVersions (settings w)"
  shows "length (filter (\<lambda>x. localPath x = P) (index (addEntry env e w)))
           \<le> nat (maxHistoryVersions (settings w))
       \<and> (\<forall>x \<in> set (index (addEntry env e w)).
             fst (Date_now w) - timestamp x \<le> historyMaxAgeDays (settings w) * 24 * 60 * 60 * 1000)
       \<and> index (addEntry env e w) =
           filter (\<lambda>x. entry_id x \<notin> entry_id ` set (entriesToDelete (maxHistoryVersions (settings w))
                (historyMaxAgeDays (settings w) * 24 * 60 * 60 * 1000) (fst (Date_now w)) (index w @ [e])))
             (index w @ [e])"
proof (intro conjI)
  let ?k = "maxHistoryVersions (settings w)"
  let ?a = "historyMaxAgeDays (settings w) * 24 * 60 * 60 * 1000"
  let ?n = "fst (Date_now w)"
  let ?es = "index w @ [e]"
  show eq: "index (addEntry env e w) =
      filter (\<lambda>x. entry_id x \<notin> entry_id ` set (entriesToDelete ?k ?a ?n ?es)) ?es"
    by (rule index_addEntry)
  show "length (filter (\<lambda>x. localPath x = P) (index (addEntry env e w))) \<le> nat ?k"
    unfolding eq by (rule retained_per_path_le [OF assms])
  show "\<forall>x \<in> set (index (addEntry env e w)). ?n - timestamp x \<le> ?a"
  proof
    fix x
    assume "x \<in> set (index (addEntry env e w))"
    then have "x \<in> set (filter (\<lambda>x. entry_id x \<notin> entry_id ` set (entriesToDelete ?k ?a ?n ?es)) ?es)"
      by (simp only: eq)
    then have x: "x \<in> set ?es" and keep: "entry_id x \<notin> entry_id ` set (entriesToDelete ?k ?a ?n ?es)"
      unfolding set_filter by blast+
    show "?n - timestamp x \<le> ?a"
    proof (rule ccontr)
      assume "\<not> ?n - timestamp x \<le> ?a"
      then have "?n - timestamp x > ?a" by simp
      from old_is_marked [OF x this] keep show False by blast
    qed
  qed
qed

theorem retention_after_addEntry_witness:
  "0 \<le> maxHistoryVersions (settings (demo_world\<lparr>index := [demo_entry ''a'' 100, demo_entry ''b'' 200]\<rparr>))
   \<and> length (filter (\<lambda>x. localPath x = ''/ws/a.txt'')
        (index (addEntry demo_platform (demo_entry ''c'' 300)
           (demo_world\<lparr>index := [demo_entry ''a'' 100, demo_entry ''b'' 200]\<rparr>))))
      \<le> nat (maxHistoryVersions (settings (demo_world\<lparr>index := [demo_entry ''a'' 100, demo_entry ''b'' 200]\<rparr>)))
   \<and> index (addEntry demo_platform (demo_entry ''c'' 300)
        (demo_world\<lparr>index := [demo_entry ''a'' 100, demo_entry ''b'' 200]\<rparr>))
      = [demo_entry ''b'' 200, demo_entry ''c'' 300]"
proof -
  let ?w = "demo_world\<lparr>index := [demo_entry ''a'' 100, demo_entry ''b'' 200]\<rparr>"
  have h: "0 \<le> maxHistoryVersions (settings ?w)"
    by (simp add: demo_world_def demo_settings_def)
  have c: "index (addEntry demo_platform (demo_entry ''c'' 300) ?w) = [demo_entry ''b'' 200, demo_entry ''c'' 300]"
    by code_simp
  from retention_after_addEntry [OF h, of "''/ws/a.txt''" demo_platform "demo_entry ''c'' 300"]
  have "length (filter (\<lambda>x. localPath x = ''/ws/a.txt'') (index (addEntry demo_platform (demo_entry ''c'' 300) ?w)))
      \<le> nat (maxHistoryVersions (settings ?w))"
    by (rule conjunct1)
  with h c show ?thesis by blast
qed

section \<open>Version ordinals\<close>

lemma length_filter_filter_le:
  "length (filter T (filter Q xs)) \<le> length (filter T xs)"
  by (induction xs) auto

text \<open>
  C2 (ordinal stability), as amended. The suffix of a new snapshot is the decimal of
  1 + the number of entries now in the index for its (local path, operation, profile)
  triple. A commit raises that number by at most one, and by exactly one when the commit
  is of the triple and its pruning pass marks nothing for deletion.
\<close>

theorem ordinal_follows_index:
  "generateVersionSuffix w lp e
     = String_nat (Suc (length (filter (\<lambda>x. localPath x = lp \<and> operation x = operation e
                                          \<and> profileName x = profileName e) (index w))))
   \<and> length (filter (\<lambda>x. localPath x = lp \<and> operation x = operation e \<and> profileName x = profileName e)
        (index (addEntry env c w)))
      \<le> Suc (length (filter (\<lambda>x. localPath x = lp \<and> operation x = operation e
                                 \<and> profileName x = profileName e) (index w)))
   \<and> (localPath c = lp \<and> operation c = operation e \<and> profileName c = profileName e
        \<and> entriesToDelete (maxHistoryVersions (settings w))
             (historyMaxAgeDays (settings w) * 24 * 60 * 60 * 1000) (fst (Date_now w)) (index w @ [c]) = []
      \<longrightarrow> generateVersionSuffix (addEntry env c w) lp e
            = String_nat (Suc (Suc (length (filter (\<lambda>x. localPath x = lp \<and> operation x = operation e
                                          \<and> profileName x = profileName e) (index w))))))"
proof (intro conjI impI)
  let ?T = "\<lambda>x. localPath x = lp \<and> operation x = operation e \<and> profileName x = profileName e"
  show "generateVersionSuffix w lp e = String_nat (Suc (length (filter ?T (index w))))"
    by (simp add: generateVersionSuffix_def)
  have "length (filter ?T (index (addEntry env c w))) \<le> length (filter ?T (index w @ [c]))"
    unfolding index_addEntry by (rule length_filter_filter_le)
  also have "\<dots> \<le> Suc (length (filter ?T (index w)))" by simp
  finally show "length (filter ?T (index (addEntry env c w))) \<le> Suc (length (filter ?T (index w)))" .
  assume "localPath c = lp \<and> operation c = operation e \<and> profileName c = profileName e
        \<and> entriesToDelete (maxHistoryVersions (settings w))
             (historyMaxAgeDays (settings w) * 24 * 60 * 60 * 1000) (fst (Date_now w)) (index w @ [c]) = []"
  then have c: "?T c" and none: "entriesToDelete (maxHistoryVersions (settings w))
             (historyMaxAgeDays (settings w) * 24 * 60 * 60 * 1000) (fst (Date_now w)) (index w @ [c]) = []"
    by simp_all
  have "index (addEntry env c w) = index w @ [c]"
    unfolding index_addEntry none by simp
  with c show "generateVersionSuffix (addEntry env c w) lp e
      = String_nat (Suc (Suc (length (filter ?T (index w)))))"
    by (simp add: generateVersionSuffix_def)
qed

theorem ordinal_follows_index_witness:
  "generateVersionSuffix (addEntry demo_platform (demo_entry ''a'' 100) demo_world) ''/ws/a.txt'' (demo_entry ''b'' 200) = ''2''"
proof -
  have h: "localPath (demo_entry ''a'' 100) = ''/ws/a.txt'' \<and> operation (demo_entry ''a'' 100) = operation (demo_entry ''b'' 200)
      \<and> profileName (demo_entry ''a'' 100) = profileName (demo_entry ''b'' 200)
      \<and> entriesToDelete (maxHistoryVersions (settings demo_world))
             (historyMaxAgeDays (settings demo_world) * 24 * 60 * 60 * 1000) (fst (Date_now demo_world))
             (index demo_world @ [demo_entry ''a'' 100]) = []"
    by code_simp
  have n: "String_nat (Suc (Suc (length (filter (\<lambda>x. localPath x = ''/ws/a.txt'' \<and> operation x = operation (demo_entry ''b'' 200)
                                          \<and> profileName x = profileName (demo_entry ''b'' 200)) (index demo_world))))) = ''2''"
    by code_simp
  from ordinal_follows_index [of demo_world "''/ws/a.txt''" "demo_entry ''b'' 200" demo_platform "demo_entry ''a'' 100"] h
  have "generateVersionSuffix (addEntry demo_platform (demo_entry ''a'' 100) demo_world) ''/ws/a.txt'' (demo_entry ''b'' 200)
      = String_nat (Suc (Suc (length (filter (\<lambda>x. localPath x = ''/ws/a.txt'' \<and> operation x = operation (demo_entry ''b'' 200)
                                          \<and> profileName x = profileName (demo_entry ''b'' 200)) (index demo_world)))))"
    by blast
  with n show ?thesis by simp
qed

text \<open>
  With one version kept per file, three snapshot-and-commit rounds of the same upload
  are given the ordinals 1, 2 and 2: the second commit prunes the first entry from the
  index, and the third snapshot counts one indexed entry again.
\<close>

theorem ordinal_reused_after_pruning:
  "generateVersionSuffix one_version_world ''/ws/a.txt'' (demo_entry ''x'' 0) = ''1''
   \<and> generateVersionSuffix (snapshot_and_commit one_version_world) ''/ws/a.txt'' (demo_entry ''x'' 0) = ''2''
   \<and> generateVersionSuffix (snapshot_and_commit (snapshot_and_commit one_version_world))
        ''/ws/a.txt'' (demo_entry ''x'' 0) = ''2''"
  by code_simp

section \<open>The two-phase commit protocol\<close>

lemma recordAfter_pending_cleared:
  "map_of (pendingBackups (recordAfter env opn lp rp w)) (getBackupKey lp rp opn) = None"
  by (simp add: recordAfter_def Let_def delete_conv split: option.splits)

lemma recordAfter_no_pending:
  "map_of (pendingBackups w) (getBackupKey lp rp opn) = None \<Longrightarrow> recordAfter env opn lp rp w = w"
  by (simp add: recordAfter_def)

lemma recordAfter_again:
  "recordAfter env opn lp rp (recordAfter env opn lp rp w) = recordAfter env opn lp rp w"
  by (rule recordAfter_no_pending) (rule recordAfter_pending_cleared)

lemma index_recordAfter_pending:
  "map_of (pendingBackups w) (getBackupKey lp rp opn) = Some e
     \<Longrightarrow> index (recordAfter env opn lp rp w) = index (addEntry env e w)"
  by (simp add: recordAfter_def Let_def)

text \<open>
  C10 (at-most-once commit). A \<open>recordAfter\<close> call that finds a pending entry under its
  key leaves the index that one \<open>addEntry\<close> of that entry leaves, and no pending entry
  under the key; a second call with the same key right after it changes nothing at all.
\<close>

theorem recordAfter_commits_once:
  "recordAfterUpload env lp rp (recordAfterUpload env lp rp w) = recordAfterUpload env lp rp w
   \<and> recordAfterDownload env lp rp (recordAfterDownload env lp rp w) = recordAfterDownload env lp rp w
   \<and> map_of (pendingBackups (recordAfterUpload env lp rp w)) (getBackupKey lp rp upload) = None
   \<and> map_of (pendingBackups (recordAfterDownload env lp rp w)) (getBackupKey lp rp download) = None
   \<and> (map_of (pendingBackups w) (getBackupKey lp rp upload) = Some e
        \<longrightarrow> index (recordAfterUpload env lp rp w) = index (addEntry env e w))
   \<and> (map_of (pendingBackups w) (getBackupKey lp rp download) = Some e
        \<longrightarrow> index (recordAfterDownload env lp rp w) = index (addEntry env e w))"
  by (simp add: recordAfterUpload_def recordAfterDownload_def recordAfter_again
      recordAfter_pending_cleared index_recordAfter_pending)

theorem recordAfter_commits_once_witness:
  "map_of (pendingBackups pending_world) (getBackupKey ''/ws/a.txt'' ''/srv/a.txt'' upload) = Some (demo_entry ''a'' 100)
   \<and> index (recordAfterUpload demo_platform ''/ws/a.txt'' ''/srv/a.txt'' pending_world)
       = index (addEntry demo_platform (demo_entry ''a'' 100) pending_world)
   \<and> index (recordAfterUpload demo_platform ''/ws/a.txt'' ''/srv/a.txt'' pending_world) = [demo_entry ''a'' 100]
   \<and> index (recordAfterUpload demo_platform ''/ws/a.txt'' ''/srv/a.txt''
        (recordAfterUpload demo_platform ''/ws/a.txt'' ''/srv/a.txt'' pending_world)) = [demo_entry ''a'' 100]"
proof -
  have p: "map_of (pendingBackups pending_world) (getBackupKey ''/ws/a.txt'' ''/srv/a.txt'' upload)
      = Some (demo_entry ''a'' 100)"
    by code_simp
  have i: "index (recordAfterUpload demo_platform ''/ws/a.txt'' ''/srv/a.txt'' pending_world) = [demo_entry ''a'' 100]"
    by code_simp
  note t = recordAfter_commits_once [of demo_platform "''/ws/a.txt''" "''/srv/a.txt''" pending_world "demo_entry ''a'' 100"]
  from t p have "index (recordAfterUpload demo_platform ''/ws/a.txt'' ''/srv/a.txt'' pending_world)
       = index (addEntry demo_platform (demo_entry ''a'' 100) pending_world)"
    by blast
  moreover from t i have "index (recordAfterUpload demo_platform ''/ws/a.txt'' ''/srv/a.txt''
        (recordAfterUpload demo_platform ''/ws/a.txt'' ''/srv/a.txt'' pending_world)) = [demo_entry ''a'' 100]"
    by simp
  ultimately show ?thesis using p i by blast
qed

text \<open>
  What holds of C4 (no commit without snapshot): when the local file is absent and
  nothing is pending under the key, \<open>recordBefore\<close> followed by \<open>recordAfter\<close> leaves the
  index and \<^verbatim>\<open>index.json\<close> as they were.
\<close>

lemma recordBefore_absent:
  "\<not> existsSync (disk w) lp \<Longrightarrow>
     fst (recordBefore env opn lp rp w) = Ok ()
     \<and> pendingBackups (snd (recordBefore env opn lp rp w)) = pendingBackups w
     \<and> index (snd (recordBefore env opn lp rp w)) = index w
     \<and> persisted (snd (recordBefore env opn lp rp w)) = persisted w
     \<and> disk (snd (recordBefore env opn lp rp w)) = disk w"
  by (simp add: recordBefore_def generateId_def Date_now_def Math_random_def Let_def
      split: option.splits list.splits)

lemma no_commit_without_snapshot_when_nothing_pending:
  assumes "\<not> existsSync (disk w) lp" "map_of (pendingBackups w) (getBackupKey lp rp opn) = None"
  shows "recordAfter env opn lp rp (snd (recordBefore env opn lp rp w)) = snd (recordBefore env opn lp rp w)"
    and "index (recordAfter env opn lp rp (snd (recordBefore env opn lp rp w))) = index w"
    and "persisted (recordAfter env opn lp rp (snd (recordBefore env opn lp rp w))) = persisted w"
proof -
  from recordBefore_absent [OF assms(1), of env opn rp] assms(2)
  have "map_of (pendingBackups (snd (recordBefore env opn lp rp w))) (getBackupKey lp rp opn) = None"
    by simp
  then show "recordAfter env opn lp rp (snd (recordBefore env opn lp rp w)) = snd (recordBefore env opn lp rp w)"
    by (rule recordAfter_no_pending)
  then show "index (recordAfter env opn lp rp (snd (recordBefore env opn lp rp w))) = index w"
    and "persisted (recordAfter env opn lp rp (snd (recordBefore env opn lp rp w))) = persisted w"
    using recordBefore_absent [OF assms(1), of env opn rp] by simp_all
qed

text \<open>
  C4 at the input that breaks it. In \<open>stale_world\<close> the local file is absent and the
  index is empty, \<open>recordBeforeDownload\<close> takes no snapshot (the disk is unchanged), and
  yet the following \<open>recordAfterDownload\<close> with the same key commits an entry: the one
  left pending by the failed transfer.
\<close>

theorem stale_pending_is_committed:
  "\<not> existsSync (disk stale_world) ''/ws/a.txt''
   \<and> index stale_world = []
   \<and> fst (recordBeforeDownload demo_platform ''/ws/a.txt'' ''/srv/a.txt'' stale_world) = Ok ()
   \<and> disk (snd (recordBeforeDownload demo_platform ''/ws/a.txt'' ''/srv/a.txt'' stale_world)) = disk stale_world
   \<and> index (recordAfterDownload demo_platform ''/ws/a.txt'' ''/srv/a.txt''
        (snd (recordBeforeDownload demo_platform ''/ws/a.txt'' ''/srv/a.txt'' stale_world)))
      = [\<lparr>entry_id = ''1000-'', timestamp = 1000, operation = download, localPath = ''/ws/a.txt'',
          remotePath = ''/srv/a.txt'', profileName = ''prod'', fileSize = 5, hash = ''hello''\<rparr>]"
  by code_simp

text \<open>
  The same run through the public operation: the first \<open>downloadFile\<close> fails and commits
  nothing; the second one, onto the now absent local file, succeeds and commits the entry
  of the first, with its timestamp and the hash of the file that is gone.
\<close>

lemma stale_entry_through_downloadFile:
  "fst (downloadFile demo_platform overwriting_user ''/srv/a.txt'' (Some ''/ws/a.txt'')
          (served_world\<lparr>failing := [''/srv/a.txt'']\<rparr>))
     = \<lparr>success = False, filesProcessed = 0,
        errors = [''Error: Failed to download file /srv/a.txt: Error: fastGet: connection lost, /srv/a.txt'']\<rparr>
   \<and> index after_failed_download = []
   \<and> \<not> existsSync (disk after_failed_download) ''/ws/a.txt''
   \<and> fst (downloadFile demo_platform overwriting_user ''/srv/a.txt'' (Some ''/ws/a.txt'') after_failed_download)
     = \<lparr>success = True, filesProcessed = 1, errors = []\<rparr>
   \<and> index (snd (downloadFile demo_platform overwriting_user ''/srv/a.txt'' (Some ''/ws/a.txt'')
        after_failed_download))
     = [\<lparr>entry_id = ''1000-'', timestamp = 1000, operation = download, localPath = ''/ws/a.txt'',
          remotePath = ''/srv/a.txt'', profileName = ''prod'', fileSize = 5, hash = ''hello''\<rparr>]"
  by code_simp

section \<open>Restore\<close>

lemma find_append_Some: "find P xs = Some x \<Longrightarrow> find P (xs @ ys) = Some x"
  by (induction xs) (auto split: if_splits)

lemma map_filter_append: "List.map_filter f (xs @ ys) = List.map_filter f xs @ List.map_filter f ys"
  by (simp add: List.map_filter_def)

text \<open>Writing a file elsewhere leaves a directory's first match where it was.\<close>

lemma readdirSync_update:
  assumes "readdirSync t d = Ok names" "find P names = Some n" "d \<noteq> p"
  shows "\<exists>names'. readdirSync (AList.update p (File b) t) d = Ok names' \<and> find P names' = Some n"
proof -
  from assms(1) have dir: "map_of t d = Some Dir"
    and names: "names = List.map_filter (child_name d) (map fst t)"
    by (auto simp: readdirSync_def split: option.splits node.splits)
  from dir assms(3) have dir': "map_of (AList.update p (File b) t) d = Some Dir"
    by (simp add: update_conv')
  have "\<exists>extra. map fst (AList.update p (File b) t) = map fst t @ extra"
    by (simp add: update_keys)
  then obtain extra where "map fst (AList.update p (File b) t) = map fst t @ extra" ..
  then have "readdirSync (AList.update p (File b) t) d = Ok (names @ List.map_filter (child_name d) extra)"
    using dir' by (simp add: readdirSync_def names map_filter_append)
  moreover have "find P (names @ List.map_filter (child_name d) extra) = Some n"
    by (rule find_append_Some [OF assms(2)])
  ultimately show ?thesis by blast
qed

lemma getBackupPath_Some:
  "getBackupPath env w e = Ok (Some bp) \<longleftrightarrow>
     (\<exists>names n. readdirSync (disk w) (getVersionDir env w e) = Ok names
        \<and> find (isBackupOf (path_basename (localPath e))) names = Some n
        \<and> bp = path_join (getVersionDir env w e) n)"
  by (auto simp: getBackupPath_def Let_def split: result.splits option.splits)

lemma getVersionDir_disk [simp]: "getVersionDir env (w\<lparr>disk := t\<rparr>) e = getVersionDir env w e"
  by (simp add: getVersionDir_def)

text \<open>
  C7 (idempotent restore). When the entry's blob resolves to a file with bytes \<open>b\<close> and
  the destination can be written (it is not a directory and its parent directory
  exists), \<open>restoreFromHistory\<close> replaces the content of \<open>localPath\<close> by \<open>b\<close>, and a second
  call right after it succeeds and leaves the very same state, so both calls write \<open>b\<close>.
  When the snapshot directory cannot be listed, the call fails with the error of the
  listing (\<^verbatim>\<open>ENOENT\<close> when the directory is gone), and when the directory holds no
  matching blob it fails with \<^verbatim>\<open>Backup file not found\<close>; in both cases the state, and so
  the local file, is unchanged.
\<close>

theorem restore_idempotent:
  "(getBackupPath env w e = Ok (Some bp) \<and> map_of (disk w) bp = Some (File b)
      \<and> \<not> isDirectory (disk w) (localPath e) \<and> isDirectory (disk w) (path_dirname (localPath e))
    \<longrightarrow> restoreFromHistory env e w = (Ok (), w\<lparr>disk := AList.update (localPath e) (File b) (disk w)\<rparr>)
        \<and> map_of (AList.update (localPath e) (File b) (disk w)) (localPath e) = Some (File b)
        \<and> restoreFromHistory env e (w\<lparr>disk := AList.update (localPath e) (File b) (disk w)\<rparr>)
            = (Ok (), w\<lparr>disk := AList.update (localPath e) (File b) (disk w)\<rparr>))
   \<and> (readdirSync (disk w) (getVersionDir env w e) = Throw m
        \<longrightarrow> restoreFromHistory env e w = (Throw m, w))
   \<and> (\<not> existsSync (disk w) (getVersionDir env w e)
        \<longrightarrow> restoreFromHistory env e w
            = (Throw (''ENOENT: no such file or directory, scandir '' @ getVersionDir env w e), w))
   \<and> (readdirSync (disk w) (getVersionDir env w e) = Ok names
        \<and> find (isBackupOf (path_basename (localPath e))) names = None
        \<longrightarrow> restoreFromHistory env e w = (Throw ''Backup file not found'', w))"
proof (intro conjI impI)
  assume "readdirSync (disk w) (getVersionDir env w e) = Throw m"
  then show "restoreFromHistory env e w = (Throw m, w)"
    by (simp add: restoreFromHistory_def getBackupPath_def Let_def)
next
  assume "\<not> existsSync (disk w) (getVersionDir env w e)"
  then show "restoreFromHistory env e w
      = (Throw (''ENOENT: no such file or directory, scandir '' @ getVersionDir env w e), w)"
    by (simp add: restoreFromHistory_def getBackupPath_def Let_def readdirSync_def existsSync_def)
next
  assume "readdirSync (disk w) (getVersionDir env w e) = Ok names
        \<and> find (isBackupOf (path_basename (localPath e))) names = None"
  then show "restoreFromHistory env e w = (Throw ''Backup file not found'', w)"
    by (simp add: restoreFromHistory_def getBackupPath_def Let_def)
next
  let ?lp = "localPath e"
  let ?t = "AList.update ?lp (File b) (disk w)"
  let ?d = "getVersionDir env w e"
  assume h: "getBackupPath env w e = Ok (Some bp) \<and> map_of (disk w) bp = Some (File b)
      \<and> \<not> isDirectory (disk w) ?lp \<and> isDirectory (disk w) (path_dirname ?lp)"
  then have bp: "getBackupPath env w e = Ok (Some bp)" and blob: "map_of (disk w) bp = Some (File b)"
    and nd: "map_of (disk w) ?lp \<noteq> Some Dir" and pd: "map_of (disk w) (path_dirname ?lp) = Some Dir"
    by (simp_all add: isDirectory_def)
  have copy: "copyFileSync (disk w) bp ?lp = Ok ?t"
    using blob nd pd by (simp add: copyFileSync_def readFileSync_def writeFileSync_def)
  show first: "restoreFromHistory env e w = (Ok (), w\<lparr>disk := ?t\<rparr>)"
    using bp blob copy by (simp add: restoreFromHistory_def existsSync_def)
  show content: "map_of ?t ?lp = Some (File b)"
    by (simp add: update_conv')
  from bp obtain names n where ls: "readdirSync (disk w) ?d = Ok names"
    and f: "find (isBackupOf (path_basename ?lp)) names = Some n" and bpn: "bp = path_join ?d n"
    unfolding getBackupPath_Some by blast
  from ls have "map_of (disk w) ?d = Some Dir"
    by (auto simp: readdirSync_def split: option.splits node.splits)
  with nd have "?d \<noteq> ?lp" by auto
  from readdirSync_update [OF ls f this, of b]
  have bp': "getBackupPath env (w\<lparr>disk := ?t\<rparr>) e = Ok (Some bp)"
    unfolding getBackupPath_Some using bpn by auto
  have blob': "map_of ?t bp = Some (File b)"
    using blob by (simp add: update_conv')
  have "path_dirname ?lp \<noteq> ?lp" using nd pd by auto
  then have pd': "map_of ?t (path_dirname ?lp) = Some Dir"
    using pd by (simp add: update_conv')
  have "AList.update ?lp (File b) ?t = ?t"
    by (rule update_triv) (rule content)
  then have copy': "copyFileSync ?t bp ?lp = Ok ?t"
    using blob' content pd' by (simp add: copyFileSync_def readFileSync_def writeFileSync_def)
  show "restoreFromHistory env e (w\<lparr>disk := ?t\<rparr>) = (Ok (), w\<lparr>disk := ?t\<rparr>)"
    using bp' blob' copy' by (simp add: restoreFromHistory_def existsSync_def)
qed

theorem restore_idempotent_witness:
  "map_of (disk restorable_world) ''/ws/a.txt'' = Some (File ''changed'')
   \<and> getBackupPath demo_platform restorable_world restorable_entry
       = Ok (Some ''/ws/.vscode/filesyncer/history/1000_prod/a.txt_v1'')
   \<and> map_of (disk restorable_world) ''/ws/.vscode/filesyncer/history/1000_prod/a.txt_v1'' = Some (File ''hello'')
   \<and> restoreFromHistory demo_platform restorable_entry restorable_world
       = (Ok (), restorable_world\<lparr>disk := AList.update (localPath restorable_entry) (File ''hello'') (disk restorable_world)\<rparr>)
   \<and> restoreFromHistory demo_platform restorable_entry
        (restorable_world\<lparr>disk := AList.update (localPath restorable_entry) (File ''hello'') (disk restorable_world)\<rparr>)
       = (Ok (), restorable_world\<lparr>disk := AList.update (localPath restorable_entry) (File ''hello'') (disk restorable_world)\<rparr>)"
proof -
  have c: "map_of (disk restorable_world) ''/ws/a.txt'' = Some (File ''changed'')"
    by code_simp
  have h: "getBackupPath demo_platform restorable_world restorable_entry
             = Ok (Some ''/ws/.vscode/filesyncer/history/1000_prod/a.txt_v1'')
      \<and> map_of (disk restorable_world) ''/ws/.vscode/filesyncer/history/1000_prod/a.txt_v1'' = Some (File ''hello'')
      \<and> \<not> isDirectory (disk restorable_world) (localPath restorable_entry)
      \<and> isDirectory (disk restorable_world) (path_dirname (localPath restorable_entry))"
    by code_simp
  from restore_idempotent [of demo_platform restorable_world restorable_entry
      "''/ws/.vscode/filesyncer/history/1000_prod/a.txt_v1''" "''hello''"] h c
  show ?thesis by blast
qed

section \<open>Preconditions and the overwrite prompt\<close>

lemma connections_frame_refl: "\<exists>c. w = w\<lparr>connections := c\<rparr>"
  by (rule exI [of _ "connections w"]) simp

text \<open>Connecting changes nothing but the table of connections.\<close>

lemma ensureConnected_frame:
  "ensureConnected w = (r, w1) \<Longrightarrow> \<exists>c. w1 = w\<lparr>connections := c\<rparr>"
  by (auto simp: ensureConnected_def connect_def intro: connections_frame_refl
      split: option.splits if_splits result.splits)

lemma failed_newResult: "failed newResult m = hardFailure m"
  by (simp add: failed_def newResult_def hardFailure_def String_error_def)

text \<open>
  C8 (precondition hard failure), as amended. With no active profile each of the five
  operations returns \<open>success = False\<close>, \<open>filesProcessed = 0\<close> and one error, and leaves
  the state as it was (\<open>syncAll\<close> reports the missing workspace folder first when that is
  missing too). With no workspace folder open \<open>syncAll\<close> fails in the same way, and so
  does \<open>downloadFile\<close> when it is given no local path to write to.
\<close>

theorem precondition_failure:
  "(getActiveProfile (settings w) = None \<longrightarrow>
       uploadFile env u lp rp w = (hardFailure ''No active server profile'', w)
     \<and> downloadFile env u rp' lp' w = (hardFailure ''No active server profile'', w)
     \<and> uploadFolder env u lp rp w = (hardFailure ''No active server profile'', w)
     \<and> downloadFolder env u rp' lp' w = (hardFailure ''No active server profile'', w)
     \<and> (workspaceFolder w \<noteq> None \<longrightarrow> syncAll env u w = (hardFailure ''No active server profile'', w)))
   \<and> (workspaceFolder w = None \<longrightarrow>
       syncAll env u w = (hardFailure ''No workspace folder open'', w)
     \<and> (getActiveProfile (settings w) \<noteq> None \<and> \<not> truthy lp'
          \<longrightarrow> downloadFile env u rp' lp' w = (hardFailure ''No workspace folder open'', w)))"
  by (auto simp: uploadFile_def downloadFile_def uploadFolder_def downloadFolder_def syncAll_def
      failed_newResult getLocalPath_def split: option.splits)

theorem precondition_failure_witness:
  "getActiveProfile (settings unconfigured_world) = None
   \<and> workspaceFolder unconfigured_world = None
   \<and> uploadFile demo_platform overwriting_user ''/ws/a.txt'' None unconfigured_world
       = (hardFailure ''No active server profile'', unconfigured_world)
   \<and> downloadFolder demo_platform overwriting_user ''/srv'' None unconfigured_world
       = (hardFailure ''No active server profile'', unconfigured_world)
   \<and> syncAll demo_platform overwriting_user unconfigured_world
       = (hardFailure ''No workspace folder open'', unconfigured_world)
   \<and> downloadFile demo_platform overwriting_user ''/srv/a.txt'' None no_workspace_world
       = (hardFailure ''No workspace folder open'', no_workspace_world)"
proof -
  have a: "getActiveProfile (settings unconfigured_world) = None" by code_simp
  have b: "workspaceFolder unconfigured_world = None" by code_simp
  have c: "workspaceFolder no_workspace_world = None
      \<and> getActiveProfile (settings no_workspace_world) \<noteq> None \<and> \<not> truthy None"
    by code_simp
  from precondition_failure [of unconfigured_world demo_platform overwriting_user "''/ws/a.txt''" None
      "''/srv''" None] a b
  have 1: "uploadFile demo_platform overwriting_user ''/ws/a.txt'' None unconfigured_world
       = (hardFailure ''No active server profile'', unconfigured_world)
     \<and> downloadFolder demo_platform overwriting_user ''/srv'' None unconfigured_world
       = (hardFailure ''No active server profile'', unconfigured_world)
     \<and> syncAll demo_platform overwriting_user unconfigured_world
       = (hardFailure ''No workspace folder open'', unconfigured_world)"
    by blast
  from precondition_failure [of no_workspace_world demo_platform overwriting_user "''/ws/a.txt''" None
      "''/srv/a.txt''" None] c
  have 2: "downloadFile demo_platform overwriting_user ''/srv/a.txt'' None no_workspace_world
       = (hardFailure ''No workspace folder open'', no_workspace_world)"
    by simp
  from a b 1 2 show ?thesis by blast
qed

text \<open>
  With no workspace folder open, an active profile and an explicit local path,
  \<open>downloadFile\<close> transfers the file and reports success.
\<close>

theorem download_without_workspace:
  "workspaceFolder no_workspace_world = None
   \<and> fst (downloadFile demo_platform overwriting_user ''/srv/a.txt'' (Some ''/ws/new.txt'') no_workspace_world)
       = \<lparr>success = True, filesProcessed = 1, errors = []\<rparr>
   \<and> map_of (disk (snd (downloadFile demo_platform overwriting_user ''/srv/a.txt'' (Some ''/ws/new.txt'')
         no_workspace_world))) ''/ws/new.txt'' = Some (File ''remote'')"
  by code_simp

text \<open>
  C6 (confirmation declined). With an active profile, a connection, the confirmation
  policy on and an answer other than \<^verbatim>\<open>Overwrite\<close>: \<open>uploadFile\<close> onto a remote path that
  exists, and \<open>downloadFile\<close> onto a local path that exists, return \<open>success = True\<close>,
  \<open>filesProcessed = 0\<close> and no error, in the state the connection left, which has the
  requests, both trees, the index, \<^verbatim>\<open>index.json\<close> and the pending entries of the
  state before the call.
\<close>

theorem confirmation_declined:
  assumes "getActiveProfile (settings w) = Some p" and "ensureConnected w = (Ok (), w1)"
    and "confirmBeforeOverwrite (settings w)" and "choice u \<noteq> Some ''Overwrite''"
  shows "(client_exists (name p) (if truthy rp then the rp else getRemotePath env w lp (remotePath_p p)) w1 = Ok True
            \<longrightarrow> uploadFile env u lp rp w = (\<lparr>success = True, filesProcessed = 0, errors = []\<rparr>, w1))
       \<and> ((if truthy lp' then Ok (the lp') else getLocalPath env w rp' (remotePath_p p)) = Ok target
            \<and> existsSync (disk w1) target
            \<longrightarrow> downloadFile env u rp' lp' w = (\<lparr>success = True, filesProcessed = 0, errors = []\<rparr>, w1))
       \<and> requests w1 = requests w \<and> remote w1 = remote w \<and> disk w1 = disk w
       \<and> index w1 = index w \<and> persisted w1 = persisted w \<and> pendingBackups w1 = pendingBackups w"
proof -
  from ensureConnected_frame [OF assms(2)] obtain c where w1: "w1 = w\<lparr>connections := c\<rparr>" ..
  then have s: "settings w1 = settings w" by simp
  show ?thesis
  proof (intro conjI impI)
    assume "client_exists (name p) (if truthy rp then the rp else getRemotePath env w lp (remotePath_p p)) w1 = Ok True"
    then show "uploadFile env u lp rp w = (\<lparr>success = True, filesProcessed = 0, errors = []\<rparr>, w1)"
      using assms s by (simp add: uploadFile_def Let_def newResult_def)
  next
    assume "(if truthy lp' then Ok (the lp') else getLocalPath env w rp' (remotePath_p p)) = Ok target
            \<and> existsSync (disk w1) target"
    then show "downloadFile env u rp' lp' w = (\<lparr>success = True, filesProcessed = 0, errors = []\<rparr>, w1)"
      using assms s by (simp add: downloadFile_def Let_def newResult_def)
  qed (simp_all add: w1)
qed

theorem confirmation_declined_witness:
  "uploadFile demo_platform declining_user ''/ws/a.txt'' None served_world
     = (\<lparr>success = True, filesProcessed = 0, errors = []\<rparr>, served_world\<lparr>connections := [(''prod'', True)]\<rparr>)
   \<and> downloadFile demo_platform declining_user ''/srv/a.txt'' None served_world
     = (\<lparr>success = True, filesProcessed = 0, errors = []\<rparr>, served_world\<lparr>connections := [(''prod'', True)]\<rparr>)
   \<and> requests (served_world\<lparr>connections := [(''prod'', True)]\<rparr>) = requests served_world
   \<and> index (served_world\<lparr>connections := [(''prod'', True)]\<rparr>) = index served_world"
proof -
  let ?w1 = "served_world\<lparr>connections := [(''prod'', True)]\<rparr>"
  have a: "getActiveProfile (settings served_world) = Some demo_profile" by code_simp
  have b: "ensureConnected served_world = (Ok (), ?w1)" by code_simp
  have c: "confirmBeforeOverwrite (settings served_world)" by code_simp
  have d: "choice declining_user \<noteq> Some ''Overwrite''" by code_simp
  have e: "client_exists (name demo_profile)
      (if truthy None then the None else getRemotePath demo_platform served_world ''/ws/a.txt'' (remotePath_p demo_profile))
      ?w1 = Ok True"
    by code_simp
  have f: "(if truthy None then Ok (the None)
            else getLocalPath demo_platform served_world ''/srv/a.txt'' (remotePath_p demo_profile)) = Ok ''/ws/a.txt''
      \<and> existsSync (disk ?w1) ''/ws/a.txt''"
    by code_simp
  from confirmation_declined [OF a b c d, of None demo_platform "''/ws/a.txt''" None "''/srv/a.txt''" "''/ws/a.txt''"] e f
  show ?thesis by blast
qed

section \<open>The bulk loop\<close>

lemma transferLoop_runs:
  "notCancelledBefore u (i + length files) \<Longrightarrow>
     fst (transferLoop body msg u i files r w) = Ok ()
   \<and> success (fst (snd (transferLoop body msg u i files r w))) = success r
   \<and> filesProcessed (fst (snd (transferLoop body msg u i files r w)))
       = filesProcessed r + length (filter (\<lambda>x. x = Ok ()) (bodyOutcomes body files w))
   \<and> errors (fst (snd (transferLoop body msg u i files r w)))
       = errors r @ errorsOf files (bodyOutcomes body files w)"
proof (induction files arbitrary: i r w)
  case Nil
  then show ?case by simp
next
  case (Cons f files)
  from Cons.prems have nc: "\<not> isCancellationRequested u i"
    and rest: "notCancelledBefore u (Suc i + length files)"
    by (auto simp: notCancelledBefore_def isCancellationRequested_def split: option.splits)
  obtain x w1 where b: "body f w = (x, w1)" by (cases "body f w")
  show ?case
  proof (cases x)
    case (Ok a)
    with b nc Cons.IH [OF rest, of "r\<lparr>filesProcessed := filesProcessed r + 1\<rparr>" w1]
    show ?thesis by simp
  next
    case (Throw e)
    with b nc Cons.IH [OF rest, of "r\<lparr>errors := errors r @ [f @ '': '' @ String_error e]\<rparr>" w1]
    show ?thesis by simp
  qed
qed

lemma length_errorsOf:
  "length os = length fs \<Longrightarrow>
     length (filter (\<lambda>x. x = Ok ()) os) + length (errorsOf fs os) = length fs"
proof (induction fs os rule: errorsOf.induct)
  case (1 f fs a os)
  then show ?case by simp
next
  case (2 f fs e os)
  then show ?case by simp
qed simp_all

lemma length_bodyOutcomes [simp]: "length (bodyOutcomes body files w) = length files"
  by (induction files arbitrary: w) simp_all



lemma finish_Ok: "fst x = Ok () \<Longrightarrow> fst (finish x) = fst (snd x)"
  by (cases x) (auto simp: finish_def split: result.splits)

lemma snd_finish: "snd (finish x) = snd (snd x)"
  by (cases x) (auto simp: finish_def split: result.splits)

text \<open>Once the preconditions hold and the file set is enumerated, each bulk operation is its loop.\<close>

lemma uploadFolder_loop:
  assumes "getActiveProfile (settings w) = Some p" "ensureConnected w = (Ok (), w1)"
    "getAllFiles (disk w1) dir = Ok files"
  shows "uploadFolder env u dir rp w
     = finish (transferLoop (uploadOne env (name p) dir
          (if truthy rp then the rp else getRemotePath env w dir (remotePath_p p)))
          ''Upload cancelled'' u 0 files newResult w1)"
  using assms by (simp add: uploadFolder_def Let_def)

lemma downloadFolder_loop:
  assumes "getActiveProfile (settings w) = Some p" "ensureConnected w = (Ok (), w1)"
    "(if truthy lp then Ok (the lp) else getLocalPath env w rdir (remotePath_p p)) = Ok target"
    "getAllRemoteFiles (name p) w1 rdir = Ok files"
  shows "downloadFolder env u rdir lp w
     = finish (transferLoop (downloadOne env (name p) rdir target)
          ''Download cancelled'' u 0 files newResult w1)"
  using assms by (simp add: downloadFolder_def Let_def)

lemma syncAll_loop:
  assumes "workspaceFolder w = Some root" "getActiveProfile (settings w) = Some p"
    "ensureConnected w = (Ok (), w1)" "getAllFiles (disk w1) root = Ok localFiles"
  shows "syncAll env u w
     = finish (transferLoop (uploadOne env (name p) root (remotePath_p p)) ''Sync cancelled'' u 0
          (filter (\<lambda>file. \<not> shouldExclude env (path_relative env root file) (exclude p)) localFiles)
          newResult w1)"
  using assms by (simp add: syncAll_def Let_def)

lemma loop_success:
  assumes "notCancelledBefore u (length files)"
  shows "success (fst (finish (transferLoop body msg u 0 files newResult w)))
     \<and> filesProcessed (fst (finish (transferLoop body msg u 0 files newResult w)))
        + length (errors (fst (finish (transferLoop body msg u 0 files newResult w)))) = length files"
proof -
  from assms have nc: "notCancelledBefore u (0 + length files)" by simp
  note run = transferLoop_runs [OF nc, of body msg newResult w]
  from run have "fst (finish (transferLoop body msg u 0 files newResult w))
      = fst (snd (transferLoop body msg u 0 files newResult w))"
    by (intro finish_Ok) simp
  with run length_errorsOf [of "bodyOutcomes body files w" files] show ?thesis
    by (simp add: newResult_def)
qed


text \<open>
  C9 (the success flag of a bulk operation). Once the preconditions hold, the connection
  is there, the file set is enumerated and the token is not cancelled while the loop
  runs, each bulk operation returns \<open>success = True\<close>, whatever the outcomes of the
  per-file bodies: every file is counted either in \<open>filesProcessed\<close> or by one entry of
  \<open>errors\<close>.
\<close>

theorem bulk_success_flag:
  assumes "getActiveProfile (settings w) = Some p" and "ensureConnected w = (Ok (), w1)"
  shows "(getAllFiles (disk w1) dir = Ok files \<and> notCancelledBefore u (length files)
            \<longrightarrow> success (fst (uploadFolder env u dir rp w))
              \<and> filesProcessed (fst (uploadFolder env u dir rp w))
                  + length (errors (fst (uploadFolder env u dir rp w))) = length files)
       \<and> ((if truthy lp then Ok (the lp) else getLocalPath env w rdir (remotePath_p p)) = Ok target
            \<and> getAllRemoteFiles (name p) w1 rdir = Ok rfiles \<and> notCancelledBefore u (length rfiles)
            \<longrightarrow> success (fst (downloadFolder env u rdir lp w))
              \<and> filesProcessed (fst (downloadFolder env u rdir lp w))
                  + length (errors (fst (downloadFolder env u rdir lp w))) = length rfiles)
       \<and> (workspaceFolder w = Some root \<and> getAllFiles (disk w1) root = Ok localFiles
            \<and> notCancelledBefore u (length (filter (\<lambda>file.
                  \<not> shouldExclude env (path_relative env root file) (exclude p)) localFiles))
            \<longrightarrow> success (fst (syncAll env u w))
              \<and> filesProcessed (fst (syncAll env u w)) + length (errors (fst (syncAll env u w)))
                  = length (filter (\<lambda>file.
                      \<not> shouldExclude env (path_relative env root file) (exclude p)) localFiles))"
proof (intro conjI impI)
  assume h: "getAllFiles (disk w1) dir = Ok files \<and> notCancelledBefore u (length files)"
  then have eq: "uploadFolder env u dir rp w
     = finish (transferLoop (uploadOne env (name p) dir
          (if truthy rp then the rp else getRemotePath env w dir (remotePath_p p)))
          ''Upload cancelled'' u 0 files newResult w1)"
    using assms by (intro uploadFolder_loop) simp_all
  from h have nc: "notCancelledBefore u (length files)" by simp
  show "success (fst (uploadFolder env u dir rp w))"
    and "filesProcessed (fst (uploadFolder env u dir rp w))
          + length (errors (fst (uploadFolder env u dir rp w))) = length files"
    unfolding eq using loop_success [OF nc] by blast+
next
  assume h: "(if truthy lp then Ok (the lp) else getLocalPath env w rdir (remotePath_p p)) = Ok target
            \<and> getAllRemoteFiles (name p) w1 rdir = Ok rfiles \<and> notCancelledBefore u (length rfiles)"
  then have eq: "downloadFolder env u rdir lp w
     = finish (transferLoop (downloadOne env (name p) rdir target)
          ''Download cancelled'' u 0 rfiles newResult w1)"
    using assms by (intro downloadFolder_loop) simp_all
  from h have nc: "notCancelledBefore u (length rfiles)" by simp
  show "success (fst (downloadFolder env u rdir lp w))"
    and "filesProcessed (fst (downloadFolder env u rdir lp w))
          + length (errors (fst (downloadFolder env u rdir lp w))) = length rfiles"
    unfolding eq using loop_success [OF nc] by blast+
next
  let ?files = "filter (\<lambda>file. \<not> shouldExclude env (path_relative env root file) (exclude p)) localFiles"
  assume h: "workspaceFolder w = Some root \<and> getAllFiles (disk w1) root = Ok localFiles
            \<and> notCancelledBefore u (length ?files)"
  then have eq: "syncAll env u w
     = finish (transferLoop (uploadOne env (name p) root (remotePath_p p)) ''Sync cancelled'' u 0
          ?files newResult w1)"
    using assms by (intro syncAll_loop) simp_all
  from h have nc: "notCancelledBefore u (length ?files)" by simp
  show "success (fst (syncAll env u w))"
    and "filesProcessed (fst (syncAll env u w)) + length (errors (fst (syncAll env u w))) = length ?files"
    unfolding eq using loop_success [OF nc] by blast+
qed

theorem bulk_success_flag_witness:
  "fst (uploadFolder demo_platform overwriting_user ''/ws'' (Some ''/srv'') all_failing_world)
     = \<lparr>success = True, filesProcessed = 0,
        errors = [''/ws/a.txt: Error: Failed to upload file /ws/a.txt: Error: fastPut: connection lost, /srv/a.txt'',
                  ''/ws/b.log: Error: Failed to upload file /ws/b.log: Error: fastPut: connection lost, /srv/b.log'',
                  ''/ws/c.txt: Error: Failed to upload file /ws/c.txt: Error: fastPut: connection lost, /srv/c.txt'']\<rparr>
   \<and> success (fst (uploadFolder demo_platform overwriting_user ''/ws'' (Some ''/srv'') all_failing_world))
   \<and> success (fst (downloadFolder demo_platform overwriting_user ''/srv'' (Some ''/ws'') remote_batch_world))
   \<and> success (fst (syncAll demo_platform overwriting_user all_failing_world))
   \<and> filesProcessed (fst (syncAll demo_platform overwriting_user all_failing_world)) = 0"
proof -
  let ?c = "[(''prod'', True)]"
  have e: "fst (uploadFolder demo_platform overwriting_user ''/ws'' (Some ''/srv'') all_failing_world)
     = \<lparr>success = True, filesProcessed = 0,
        errors = [''/ws/a.txt: Error: Failed to upload file /ws/a.txt: Error: fastPut: connection lost, /srv/a.txt'',
                  ''/ws/b.log: Error: Failed to upload file /ws/b.log: Error: fastPut: connection lost, /srv/b.log'',
                  ''/ws/c.txt: Error: Failed to upload file /ws/c.txt: Error: fastPut: connection lost, /srv/c.txt'']\<rparr>"
    by code_simp
  have z: "filesProcessed (fst (syncAll demo_platform overwriting_user all_failing_world)) = 0"
    by code_simp
  have a1: "getActiveProfile (settings all_failing_world) = Some demo_profile" by code_simp
  have b1: "ensureConnected all_failing_world = (Ok (), all_failing_world\<lparr>connections := ?c\<rparr>)" by code_simp
  have h1: "getAllFiles (disk (all_failing_world\<lparr>connections := ?c\<rparr>)) ''/ws''
        = Ok [''/ws/a.txt'', ''/ws/b.log'', ''/ws/c.txt'']
      \<and> notCancelledBefore overwriting_user (length [''/ws/a.txt'', ''/ws/b.log'', ''/ws/c.txt''])"
    by code_simp
  from bulk_success_flag [OF a1 b1, THEN conjunct1, rule_format, OF h1]
  have 1: "success (fst (uploadFolder demo_platform overwriting_user ''/ws'' (Some ''/srv'') all_failing_world))"
    by (rule conjunct1)
  have h3: "workspaceFolder all_failing_world = Some ''/ws''
      \<and> getAllFiles (disk (all_failing_world\<lparr>connections := ?c\<rparr>)) ''/ws''
          = Ok [''/ws/a.txt'', ''/ws/b.log'', ''/ws/c.txt'']
      \<and> notCancelledBefore overwriting_user (length (filter (\<lambda>file.
            \<not> shouldExclude demo_platform (path_relative demo_platform ''/ws'' file) (exclude demo_profile))
            [''/ws/a.txt'', ''/ws/b.log'', ''/ws/c.txt'']))"
    by code_simp
  from bulk_success_flag [OF a1 b1, THEN conjunct2, THEN conjunct2, rule_format, OF h3]
  have 3: "success (fst (syncAll demo_platform overwriting_user all_failing_world))"
    by (rule conjunct1)
  have a2: "getActiveProfile (settings remote_batch_world) = Some demo_profile" by code_simp
  have b2: "ensureConnected remote_batch_world = (Ok (), remote_batch_world\<lparr>connections := ?c\<rparr>)" by code_simp
  have h2: "(if truthy (Some ''/ws'') then Ok (the (Some ''/ws''))
            else getLocalPath demo_platform remote_batch_world ''/srv'' (remotePath_p demo_profile)) = Ok ''/ws''
      \<and> getAllRemoteFiles (name demo_profile) (remote_batch_world\<lparr>connections := ?c\<rparr>) ''/srv''
          = Ok [''/srv/a.txt'', ''/srv/b.log'', ''/srv/c.txt'']
      \<and> notCancelledBefore overwriting_user (length [''/srv/a.txt'', ''/srv/b.log'', ''/srv/c.txt''])"
    by code_simp
  from bulk_success_flag [OF a2 b2, THEN conjunct2, THEN conjunct1, rule_format, OF h2]
  have 2: "success (fst (downloadFolder demo_platform overwriting_user ''/srv'' (Some ''/ws'') remote_batch_world))"
    by (rule conjunct1)
  from e 1 2 3 z show ?thesis by blast
qed

text \<open>
  The body of the loop throws exactly when the snapshot or the transport call throws,
  with that message; committing the entry afterwards never throws.
\<close>

lemma uploadOne_outcome:
  "fst (uploadOne env c root target f w) =
     (case fst (recordBeforeUpload env f (path_join target (path_relative env root f)) w) of
        Throw e \<Rightarrow> Throw e
      | Ok a \<Rightarrow>
          (case fst (putFile c f (path_join target (path_relative env root f))
                  (snd (recordBeforeUpload env f (path_join target (path_relative env root f)) w))) of
             Throw e \<Rightarrow> Throw e
           | Ok b \<Rightarrow> Ok ()))"
  by (auto simp: uploadOne_def Let_def split: prod.splits result.splits)

lemma downloadOne_outcome:
  "fst (downloadOne env c root target f w) =
     (case fst (recordBeforeDownload env (path_join target (posix_relative env root f)) f w) of
        Throw e \<Rightarrow> Throw e
      | Ok a \<Rightarrow>
          (case fst (getFile c f (path_join target (posix_relative env root f))
                  (snd (recordBeforeDownload env (path_join target (posix_relative env root f)) f w))) of
             Throw e \<Rightarrow> Throw e
           | Ok b \<Rightarrow> Ok ()))"
  by (auto simp: downloadOne_def Let_def split: prod.splits result.splits)



section \<open>Exclusion\<close>

text \<open>What each step of the history protocol and of an upload leaves alone.\<close>

lemma frame_Date_now [simp]:
  "requests (snd (Date_now w)) = requests w"
  "pendingBackups (snd (Date_now w)) = pendingBackups w"
  "disk (snd (Date_now w)) = disk w"
  by (simp_all add: Date_now_def split: list.splits)

lemma frame_Math_random [simp]:
  "requests (snd (Math_random w)) = requests w"
  "pendingBackups (snd (Math_random w)) = pendingBackups w"
  "index (snd (Math_random w)) = index w"
  "disk (snd (Math_random w)) = disk w"
  by (simp_all add: Math_random_def split: list.splits)

lemma frame_generateId [simp]:
  "requests (snd (generateId w)) = requests w"
  "pendingBackups (snd (generateId w)) = pendingBackups w"
  "index (snd (generateId w)) = index w"
  "disk (snd (generateId w)) = disk w"
  by (simp_all add: generateId_def case_prod_beta)

lemma frame_saveIndex [simp]:
  "requests (saveIndex w) = requests w"
  "pendingBackups (saveIndex w) = pendingBackups w"
  by (simp_all add: saveIndex_def)

lemma frame_deleteEntry [simp]:
  "requests (deleteEntry env e w) = requests w"
  "pendingBackups (deleteEntry env e w) = pendingBackups w"
  by (simp_all add: deleteEntry_def Let_def)

lemma frame_fold_deleteEntry [simp]:
  "requests (fold (deleteEntry env) ds w) = requests w"
  "pendingBackups (fold (deleteEntry env) ds w) = pendingBackups w"
  by (induction ds arbitrary: w) simp_all

lemma frame_addEntry [simp]:
  "requests (addEntry env e w) = requests w"
  "pendingBackups (addEntry env e w) = pendingBackups w"
  by (simp_all add: addEntry_def cleanupOldEntries_def Let_def case_prod_beta)

lemma set_index_addEntry: "set (index (addEntry env e w)) \<subseteq> insert e (set (index w))"
  unfolding index_addEntry by auto

lemma frame_backupFile [simp]:
  "requests (snd (backupFile env lp e w)) = requests w"
  "pendingBackups (snd (backupFile env lp e w)) = pendingBackups w"
  "index (snd (backupFile env lp e w)) = index w"
  by (simp_all add: backupFile_def Let_def split: result.splits)

lemma backupFile_entry:
  "fst (backupFile env lp e w) = Ok (bp, e') \<Longrightarrow> localPath e' = localPath e"
  by (auto simp: backupFile_def Let_def split: result.splits if_splits)

lemma set_update_subset: "set (AList.update k v al) \<subseteq> insert (k, v) (set al)"
  by (induction al) auto

lemma set_delete_subset: "set (AList.delete k al) \<subseteq> set al"
  by (induction al) auto

lemma frame_recordBefore [simp]:
  "requests (snd (recordBefore env opn lp rp w)) = requests w"
  "index (snd (recordBefore env opn lp rp w)) = index w"
  by (simp_all add: recordBefore_def Let_def case_prod_beta split: option.splits result.splits prod.splits)

lemma pending_recordBefore:
  assumes "x \<in> snd ` set (pendingBackups (snd (recordBefore env opn lp rp w)))"
  shows "x \<in> snd ` set (pendingBackups w) \<or> localPath x = lp"
proof (cases "getActiveProfile (settings w)")
  case None
  with assms show ?thesis by (simp add: recordBefore_def)
next
  case (Some profile)
  obtain i w1 where g: "generateId w = (i, w1)" by (cases "generateId w")
  obtain t w2 where d: "Date_now w1 = (t, w2)" by (cases "Date_now w1")
  let ?e = "\<lparr>entry_id = i, timestamp = t, operation = opn, localPath = lp,
             remotePath = rp, profileName = name profile, fileSize = 0, hash = []\<rparr>"
  have p2: "pendingBackups w2 = pendingBackups w"
    using frame_generateId(2) [of w] frame_Date_now(2) [of w1] g d by simp
  show ?thesis
  proof (cases "existsSync (disk w2) lp")
    case False
    with assms Some g d p2 show ?thesis by (simp add: recordBefore_def)
  next
    case True
    obtain r w3 where b: "backupFile env lp ?e w2 = (r, w3)" by (cases "backupFile env lp ?e w2")
    have p3: "pendingBackups w3 = pendingBackups w"
      using frame_backupFile(2) [of env lp ?e w2] b p2 by simp
    show ?thesis
    proof (cases r)
      case (Throw m)
      with assms Some g d True b p3 show ?thesis by (simp add: recordBefore_def)
    next
      case (Ok a)
      obtain bp e' where a: "a = (bp, e')" by (cases a)
      from backupFile_entry [of env lp ?e w2 bp e'] b Ok a have lp: "localPath e' = lp" by simp
      from assms Some g d True b Ok a
      have "x \<in> snd ` set (AList.update (getBackupKey lp rp opn) e' (pendingBackups w3))"
        by (simp add: recordBefore_def)
      with set_update_subset [of "getBackupKey lp rp opn" e' "pendingBackups w3"]
      have "x = e' \<or> x \<in> snd ` set (pendingBackups w3)" by auto
      with lp p3 show ?thesis by auto
    qed
  qed
qed

lemma frame_fastPut [simp]:
  "index (snd (fastPut lp rp w)) = index w"
  "pendingBackups (snd (fastPut lp rp w)) = pendingBackups w"
  "requests (snd (fastPut lp rp w)) = requests w @ [(upload, lp, rp)]"
  by (simp_all add: fastPut_def Let_def split: result.splits)

lemma frame_putFile [simp]:
  "index (snd (putFile c lp rp w)) = index w"
  "pendingBackups (snd (putFile c lp rp w)) = pendingBackups w"
  by (simp_all add: putFile_def Let_def case_prod_beta split: result.splits)

lemma requests_putFile:
  "set (requests (snd (putFile c lp rp w))) \<subseteq> insert (upload, lp, rp) (set (requests w))"
  by (auto simp: putFile_def Let_def case_prod_beta split: result.splits)

lemma frame_recordAfter [simp]:
  "requests (recordAfter env opn lp rp w) = requests w"
  by (simp add: recordAfter_def Let_def split: option.splits)

lemma pending_recordAfter:
  "set (pendingBackups (recordAfter env opn lp rp w)) \<subseteq> set (pendingBackups w)"
  using set_delete_subset [of "getBackupKey lp rp opn" "pendingBackups w"]
  by (auto simp: recordAfter_def Let_def split: option.splits)


lemma settings_Math_random [simp]: "settings (snd (Math_random w)) = settings w"
  by (simp add: Math_random_def split: list.splits)

lemma settings_generateId [simp]: "settings (snd (generateId w)) = settings w"
  by (simp add: generateId_def case_prod_beta)

lemma settings_deleteEntry [simp]: "settings (deleteEntry env e w) = settings w"
  by (simp add: deleteEntry_def Let_def)

lemma settings_fold_deleteEntry [simp]: "settings (fold (deleteEntry env) ds w) = settings w"
  by (induction ds arbitrary: w) simp_all

lemma settings_addEntry [simp]: "settings (addEntry env e w) = settings w"
  by (simp add: addEntry_def cleanupOldEntries_def Let_def case_prod_beta)

lemma settings_backupFile [simp]: "settings (snd (backupFile env lp e w)) = settings w"
  by (simp add: backupFile_def Let_def split: result.splits)

lemma settings_recordBefore [simp]: "settings (snd (recordBefore env opn lp rp w)) = settings w"
  by (simp add: recordBefore_def Let_def case_prod_beta split: option.splits result.splits prod.splits)

lemma settings_putFile [simp]: "settings (snd (putFile c lp rp w)) = settings w"
  by (simp add: putFile_def fastPut_def Let_def case_prod_beta split: result.splits)

lemma settings_recordAfter [simp]: "settings (recordAfter env opn lp rp w) = settings w"
  by (simp add: recordAfter_def Let_def split: option.splits)

text \<open>
  A commit in the upload loop commits the entry of the file at hand: \<open>putFile\<close> succeeds
  only when the local file can be read, \<open>recordBefore\<close> leaves the tree alone when the
  file is absent, and when it is present and the snapshot succeeds \<open>recordBefore\<close> has
  stored a fresh entry of that file under the key.
\<close>

lemma putFile_Ok_exists:
  "fst (putFile c lp rp w) = Ok a \<Longrightarrow> existsSync (disk w) lp"
  by (auto simp: putFile_def fastPut_def Let_def existsSync_def readFileSync_def
      split: if_splits result.splits option.splits node.splits prod.splits)

lemma recordBefore_fresh:
  assumes "getActiveProfile (settings w) = Some profile" and "fst (recordBefore env opn lp rp w) = Ok a"
    and "existsSync (disk w) lp"
  shows "\<exists>e. map_of (pendingBackups (snd (recordBefore env opn lp rp w))) (getBackupKey lp rp opn) = Some e
             \<and> localPath e = lp"
proof -
  obtain i w1 where g: "generateId w = (i, w1)" by (cases "generateId w")
  obtain t w2 where d: "Date_now w1 = (t, w2)" by (cases "Date_now w1")
  let ?e = "\<lparr>entry_id = i, timestamp = t, operation = opn, localPath = lp,
             remotePath = rp, profileName = name profile, fileSize = 0, hash = []\<rparr>"
  have "disk w2 = disk w"
    using frame_generateId(4) [of w] frame_Date_now(3) [of w1] g d by simp
  with assms(3) have ex: "existsSync (disk w2) lp" by simp
  obtain r w3 where b: "backupFile env lp ?e w2 = (r, w3)" by (cases "backupFile env lp ?e w2")
  show ?thesis
  proof (cases r)
    case (Throw m)
    with assms(1,2) g d ex b show ?thesis by (simp add: recordBefore_def)
  next
    case (Ok x)
    obtain bp e' where x: "x = (bp, e')" by (cases x)
    from backupFile_entry [of env lp ?e w2 bp e'] b Ok x have "localPath e' = lp" by simp
    with assms(1) g d ex b Ok x show ?thesis
      by (simp add: recordBefore_def update_conv')
  qed
qed

lemma index_uploadOne:
  assumes "getActiveProfile (settings w) = Some profile"
    and "x \<in> set (index (snd (uploadOne env c root target g w)))"
  shows "x \<in> set (index w) \<or> localPath x = g"
proof -
  let ?rp = "path_join target (path_relative env root g)"
  obtain r1 w1 where b: "recordBefore env upload g ?rp w = (r1, w1)"
    by (cases "recordBefore env upload g ?rp w")
  obtain r2 w2 where p: "putFile c g ?rp w1 = (r2, w2)" by (cases "putFile c g ?rp w1")
  have i1: "index w1 = index w" using frame_recordBefore(2) [of env upload g ?rp w] b by simp
  have i2: "index w2 = index w" using frame_putFile(1) [of c g ?rp w1] p i1 by simp
  show ?thesis
  proof (cases "r1 = Ok () \<and> r2 = Ok ()")
    case False
    then have "snd (uploadOne env c root target g w) = w1 \<or> snd (uploadOne env c root target g w) = w2"
      using b p
      by (auto simp: uploadOne_def Let_def recordBeforeUpload_def split: result.splits)
    with assms(2) i1 i2 show ?thesis by auto
  next
    case True
    then have u: "snd (uploadOne env c root target g w) = recordAfter env upload g ?rp w2"
      using b p by (simp add: uploadOne_def Let_def recordBeforeUpload_def recordAfterUpload_def)
    from putFile_Ok_exists [of c g ?rp w1 "()"] p True have e1: "existsSync (disk w1) g" by simp
    have "existsSync (disk w) g"
    proof (rule ccontr)
      assume "\<not> existsSync (disk w) g"
      from recordBefore_absent [OF this, of env upload ?rp] b have "disk w1 = disk w" by simp
      with e1 \<open>\<not> existsSync (disk w) g\<close> show False by simp
    qed
    from recordBefore_fresh [OF assms(1) _ this, of env upload ?rp "()"] b True
    obtain e where e: "map_of (pendingBackups w1) (getBackupKey g ?rp upload) = Some e" "localPath e = g"
      by auto
    have "pendingBackups w2 = pendingBackups w1" using frame_putFile(2) [of c g ?rp w1] p by simp
    with e(1) have "recordAfter env upload g ?rp w2
        = (addEntry env e w2)\<lparr>pendingBackups := AList.delete (getBackupKey g ?rp upload)
                                                    (pendingBackups (addEntry env e w2))\<rparr>"
      by (simp add: recordAfter_def Let_def)
    with u assms(2) have "x \<in> set (index (addEntry env e w2))" by simp
    with set_index_addEntry [of env e w2] i2 have "x = e \<or> x \<in> set (index w)" by auto
    with e(2) show ?thesis by auto
  qed
qed

lemma settings_uploadOne: "settings (snd (uploadOne env c root target g w)) = settings w"
proof -
  let ?rp = "path_join target (path_relative env root g)"
  let ?w1 = "snd (recordBefore env upload g ?rp w)"
  let ?w2 = "snd (putFile c g ?rp ?w1)"
  have "snd (uploadOne env c root target g w) = ?w1
      \<or> snd (uploadOne env c root target g w) = ?w2
      \<or> snd (uploadOne env c root target g w) = recordAfter env upload g ?rp ?w2"
    by (auto simp: uploadOne_def Let_def recordBeforeUpload_def recordAfterUpload_def
        split: prod.splits result.splits)
  then show ?thesis by auto
qed

lemma requests_uploadOne:
  assumes "q \<in> set (requests (snd (uploadOne env c root target g w)))"
  shows "q \<in> set (requests w) \<or> fst (snd q) = g"
proof -
  let ?rp = "path_join target (path_relative env root g)"
  let ?w1 = "snd (recordBefore env upload g ?rp w)"
  let ?w2 = "snd (putFile c g ?rp ?w1)"
  have 1: "set (requests ?w2) \<subseteq> insert (upload, g, ?rp) (set (requests w))"
    using requests_putFile [of c g ?rp ?w1] by simp
  have "snd (uploadOne env c root target g w) = ?w1
      \<or> snd (uploadOne env c root target g w) = ?w2
      \<or> snd (uploadOne env c root target g w) = recordAfter env upload g ?rp ?w2"
    by (auto simp: uploadOne_def Let_def recordBeforeUpload_def recordAfterUpload_def
        split: prod.splits result.splits)
  with assms 1 show ?thesis by auto
qed

lemma pending_uploadOne:
  assumes "x \<in> snd ` set (pendingBackups (snd (uploadOne env c root target g w)))"
  shows "x \<in> snd ` set (pendingBackups w) \<or> localPath x = g"
proof -
  let ?rp = "path_join target (path_relative env root g)"
  let ?w1 = "snd (recordBefore env upload g ?rp w)"
  let ?w2 = "snd (putFile c g ?rp ?w1)"
  have 2: "pendingBackups ?w2 = pendingBackups ?w1" by simp
  have 3: "set (pendingBackups (recordAfter env upload g ?rp ?w2)) \<subseteq> set (pendingBackups ?w1)"
    using pending_recordAfter [of env upload g ?rp ?w2] by simp
  have "snd (uploadOne env c root target g w) = ?w1
      \<or> snd (uploadOne env c root target g w) = ?w2
      \<or> snd (uploadOne env c root target g w) = recordAfter env upload g ?rp ?w2"
    by (auto simp: uploadOne_def Let_def recordBeforeUpload_def recordAfterUpload_def
        split: prod.splits result.splits)
  with assms 2 3 have "x \<in> snd ` set (pendingBackups ?w1)" by auto
  then show ?thesis by (rule pending_recordBefore)
qed

lemma untouched_refl: "untouched f w w"
  by (simp add: untouched_def)

lemma untouched_cong:
  "requests w' = requests w \<Longrightarrow> pendingBackups w' = pendingBackups w \<Longrightarrow> index w' = index w
     \<Longrightarrow> untouched f w0 w \<Longrightarrow> untouched f w0 w'"
  by (simp add: untouched_def)

lemma untouched_uploadOne:
  assumes "untouched f w0 w" and "g \<noteq> f" and "getActiveProfile (settings w) = Some profile"
  shows "untouched f w0 (snd (uploadOne env c root target g w))"
  unfolding untouched_def
proof (intro conjI ballI impI)
  fix q assume "q \<in> set (requests (snd (uploadOne env c root target g w)))" and f: "fst (snd q) = f"
  from requests_uploadOne [OF this(1)] f assms(2) have "q \<in> set (requests w)" by auto
  with assms(1) f show "q \<in> set (requests w0)" unfolding untouched_def by blast
next
  fix x assume "x \<in> snd ` set (pendingBackups (snd (uploadOne env c root target g w)))"
    and f: "localPath x = f"
  from pending_uploadOne [OF this(1)] f assms(2) have "x \<in> snd ` set (pendingBackups w)" by auto
  with assms(1) f show "x \<in> snd ` set (pendingBackups w0)" unfolding untouched_def by blast
next
  fix x assume "x \<in> set (index (snd (uploadOne env c root target g w)))" and f: "localPath x = f"
  from index_uploadOne [OF assms(3) this(1)] f assms(2) have "x \<in> set (index w)" by auto
  with assms(1) f show "x \<in> set (index w0)" unfolding untouched_def by blast
qed

lemma transferLoop_invariant:
  assumes "\<And>g w. g \<in> set files \<Longrightarrow> I w \<Longrightarrow> I (snd (body g w))" and "I w"
  shows "I (snd (snd (transferLoop body msg u i files r w)))"
  using assms
proof (induction files arbitrary: i r w)
  case Nil
  then show ?case by simp
next
  case (Cons g files)
  have step: "I (snd (body g w))" using Cons.prems by simp
  have rest: "\<And>i r. I (snd (snd (transferLoop body msg u i files r (snd (body g w)))))"
    using Cons.prems(1) step by (intro Cons.IH) simp_all
  show ?case
    using Cons.prems(2) rest
    by (cases "body g w") (auto split: result.splits)
qed

lemma shouldExclude_iff:
  "shouldExclude env x pats \<longleftrightarrow> (\<exists>pat \<in> set pats. minimatch env x pat False \<or> minimatch env x pat True)"
  by (induction pats) auto

text \<open>
  \<open>syncAll\<close> filters the enumerated files with \<open>shouldExclude\<close>. A file whose path relative
  to the workspace root matches a pattern of the active profile, with or without the
  \<^verbatim>\<open>dot\<close> option, is not in the file set the loop runs over, and the run sends no
  transfer request for it and adds no history entry for it: every request, every
  pending entry and every indexed entry for the file in the final state was there
  before the run.
\<close>

lemma syncAll_skips_excluded:
  assumes "workspaceFolder w = Some root" and "getActiveProfile (settings w) = Some p"
    and "pat \<in> set (exclude p)"
    and "minimatch env (path_relative env root f) pat False \<or> minimatch env (path_relative env root f) pat True"
  shows "untouched f w (snd (syncAll env u w))
       \<and> (ensureConnected w = (Ok (), w1) \<and> getAllFiles (disk w1) root = Ok localFiles
           \<longrightarrow> syncAll env u w
                 = finish (transferLoop (uploadOne env (name p) root (remotePath_p p)) ''Sync cancelled'' u 0
                     (filter (\<lambda>file. \<not> shouldExclude env (path_relative env root file) (exclude p)) localFiles)
                     newResult w1)
             \<and> f \<notin> set (filter (\<lambda>file. \<not> shouldExclude env (path_relative env root file) (exclude p)) localFiles))"
proof (intro conjI impI)
  have ex: "shouldExclude env (path_relative env root f) (exclude p)"
    unfolding shouldExclude_iff using assms(3,4) by blast
  {
    assume h: "ensureConnected w = (Ok (), w1) \<and> getAllFiles (disk w1) root = Ok localFiles"
    then show "syncAll env u w
        = finish (transferLoop (uploadOne env (name p) root (remotePath_p p)) ''Sync cancelled'' u 0
            (filter (\<lambda>file. \<not> shouldExclude env (path_relative env root file) (exclude p)) localFiles)
            newResult w1)"
      using assms(1,2) by (simp add: syncAll_loop)
    show "f \<notin> set (filter (\<lambda>file. \<not> shouldExclude env (path_relative env root file) (exclude p)) localFiles)"
      using ex by simp
  }
  obtain x w' where ec: "ensureConnected w = (x, w')" by (cases "ensureConnected w")
  from ensureConnected_frame [OF ec] obtain c where w': "w' = w\<lparr>connections := c\<rparr>" ..
  have start: "untouched f w w'"
    by (rule untouched_cong [OF _ _ _ untouched_refl]) (simp_all add: w')
  have prof: "getActiveProfile (settings w') = Some p" using assms(2) by (simp add: w')
  show "untouched f w (snd (syncAll env u w))"
  proof (cases x)
    case (Throw e)
    with ec start assms(1,2) show ?thesis by (simp add: syncAll_def)
  next
    case (Ok a)
    show ?thesis
    proof (cases "getAllFiles (disk w') root")
      case (Throw e)
      with ec Ok start assms(1,2) show ?thesis by (simp add: syncAll_def)
    next
      case (Ok all)
      let ?files = "filter (\<lambda>file. \<not> shouldExclude env (path_relative env root file) (exclude p)) all"
      let ?I = "\<lambda>v. untouched f w v \<and> getActiveProfile (settings v) = Some p"
      have "?I (snd (snd (transferLoop (uploadOne env (name p) root (remotePath_p p))
          ''Sync cancelled'' u 0 ?files newResult w')))"
      proof (rule transferLoop_invariant [where I = ?I])
        fix g v assume "g \<in> set ?files" and I: "?I v"
        with ex have "g \<noteq> f" by auto
        from I untouched_uploadOne [OF _ this, of w v p env "name p" root "remotePath_p p"]
        show "?I (snd (uploadOne env (name p) root (remotePath_p p) g v))"
          by (simp add: settings_uploadOne)
      qed (simp add: start prof)
      moreover have "syncAll env u w = finish (transferLoop (uploadOne env (name p) root (remotePath_p p))
          ''Sync cancelled'' u 0 ?files newResult w')"
        using ec \<open>x = Ok a\<close> Ok assms(1,2) by (simp add: syncAll_def Let_def)
      ultimately show ?thesis by (simp add: snd_finish)
    qed
  qed
qed

text \<open>On the demo workspace \<open>syncAll\<close> uploads \<^verbatim>\<open>a.txt\<close> and leaves \<^verbatim>\<open>b.log\<close> alone.\<close>

lemma syncAll_skips_excluded_witness:
  "fst (syncAll demo_platform overwriting_user demo_world) = \<lparr>success = True, filesProcessed = 1, errors = []\<rparr>
   \<and> requests (snd (syncAll demo_platform overwriting_user demo_world)) = [(upload, ''/ws/a.txt'', ''/srv/a.txt'')]
   \<and> map localPath (index (snd (syncAll demo_platform overwriting_user demo_world))) = [''/ws/a.txt'']
   \<and> untouched ''/ws/b.log'' demo_world (snd (syncAll demo_platform overwriting_user demo_world))
   \<and> ''/ws/b.log'' \<notin> set (filter (\<lambda>file. \<not> shouldExclude demo_platform
         (path_relative demo_platform ''/ws'' file) (exclude demo_profile)) [''/ws/a.txt'', ''/ws/b.log''])"
proof -
  have e: "fst (syncAll demo_platform overwriting_user demo_world) = \<lparr>success = True, filesProcessed = 1, errors = []\<rparr>
     \<and> requests (snd (syncAll demo_platform overwriting_user demo_world)) = [(upload, ''/ws/a.txt'', ''/srv/a.txt'')]
     \<and> map localPath (index (snd (syncAll demo_platform overwriting_user demo_world))) = [''/ws/a.txt'']"
    by code_simp
  have a: "workspaceFolder demo_world = Some ''/ws''" by code_simp
  have b: "getActiveProfile (settings demo_world) = Some demo_profile" by code_simp
  have c: "''*.log'' \<in> set (exclude demo_profile)" by code_simp
  have d: "minimatch demo_platform (path_relative demo_platform ''/ws'' ''/ws/b.log'') ''*.log'' False
      \<or> minimatch demo_platform (path_relative demo_platform ''/ws'' ''/ws/b.log'') ''*.log'' True"
    by code_simp
  have h: "ensureConnected demo_world = (Ok (), demo_world\<lparr>connections := [(''prod'', True)]\<rparr>)
      \<and> getAllFiles (disk (demo_world\<lparr>connections := [(''prod'', True)]\<rparr>)) ''/ws'' = Ok [''/ws/a.txt'', ''/ws/b.log'']"
    by code_simp
  note t = syncAll_skips_excluded [OF a b c d, of overwriting_user
      "demo_world\<lparr>connections := [(''prod'', True)]\<rparr>" "[''/ws/a.txt'', ''/ws/b.log'']"]
  from t have 1: "untouched ''/ws/b.log'' demo_world (snd (syncAll demo_platform overwriting_user demo_world))"
    by (rule conjunct1)
  from t [THEN conjunct2, rule_format, OF h]
  have 2: "''/ws/b.log'' \<notin> set (filter (\<lambda>file. \<not> shouldExclude demo_platform
         (path_relative demo_platform ''/ws'' file) (exclude demo_profile)) [''/ws/a.txt'', ''/ws/b.log''])"
    by (rule conjunct2)
  from e 1 2 show ?thesis by blast
qed

text \<open>
  C3 (exclusion in bulk operations): a candidate file whose path relative to the sync
  root matches an exclude pattern of the active profile is to be left out of the
  transferred set of \<open>uploadFolder\<close>, \<open>downloadFolder\<close> and \<open>syncAll\<close>, with no transfer
  and no history entry. \<open>uploadFolder\<close> and \<open>downloadFolder\<close> consult no pattern: with
  \<^verbatim>\<open>*.log\<close> excluded, \<open>uploadFolder\<close> on the demo workspace uploads \<^verbatim>\<open>b.log\<close> and
  \<open>downloadFolder\<close> on the served tree downloads it, each run counting two files
  processed and committing a history entry for \<^verbatim>\<open>/ws/b.log\<close>.
\<close>

theorem folder_transfers_ignore_exclude:
  "shouldExclude demo_platform (path_relative demo_platform ''/ws'' ''/ws/b.log'') (exclude demo_profile)
   \<and> fst (uploadFolder demo_platform overwriting_user ''/ws'' (Some ''/srv'') demo_world)
       = \<lparr>success = True, filesProcessed = 2, errors = []\<rparr>
   \<and> requests (snd (uploadFolder demo_platform overwriting_user ''/ws'' (Some ''/srv'') demo_world))
       = [(upload, ''/ws/a.txt'', ''/srv/a.txt''), (upload, ''/ws/b.log'', ''/srv/b.log'')]
   \<and> map_of (remote (snd (uploadFolder demo_platform overwriting_user ''/ws'' (Some ''/srv'') demo_world)))
        ''/srv/b.log'' = Some (File ''log'')
   \<and> map localPath (index (snd (uploadFolder demo_platform overwriting_user ''/ws'' (Some ''/srv'') demo_world)))
       = [''/ws/a.txt'', ''/ws/b.log'']
   \<and> shouldExclude demo_platform (posix_relative demo_platform ''/srv'' ''/srv/b.log'') (exclude demo_profile)
   \<and> fst (downloadFolder demo_platform overwriting_user ''/srv'' (Some ''/ws'') served_logs_world)
       = \<lparr>success = True, filesProcessed = 2, errors = []\<rparr>
   \<and> requests (snd (downloadFolder demo_platform overwriting_user ''/srv'' (Some ''/ws'') served_logs_world))
       = [(download, ''/ws/a.txt'', ''/srv/a.txt''), (download, ''/ws/b.log'', ''/srv/b.log'')]
   \<and> map_of (disk (snd (downloadFolder demo_platform overwriting_user ''/srv'' (Some ''/ws'') served_logs_world)))
        ''/ws/b.log'' = Some (File ''rb'')
   \<and> map localPath (index (snd (downloadFolder demo_platform overwriting_user ''/srv'' (Some ''/ws'') served_logs_world)))
       = [''/ws/a.txt'', ''/ws/b.log'']"
  by code_simp

end
